theory Spec2Isabelle
  imports Main "HOL-Library.List_Lexorder" "HOL-Library.Char_ord"
begin

section \<open>Python values\<close>

text \<open>
  Strings are byte strings: a Python \<^verbatim>\<open>str\<close> is its UTF-8 encoding, a character one to
  four bytes, of which the first is no continuation byte (128 to 191). The lexicographic
  order of \<^typ>\<open>string\<close> (\<^verbatim>\<open>List_Lexorder\<close> over \<^verbatim>\<open>Char_ord\<close>) is then the order Python's
  \<^verbatim>\<open>sorted\<close> uses on \<^verbatim>\<open>str\<close>, since UTF-8 keeps the order of code points.

  A decoded JSON value, as far as \<^verbatim>\<open>game_monitor.py\<close> looks at it: the code only asks for
  a value's truth, its \<^verbatim>\<open>str()\<close> and whether it is a \<^verbatim>\<open>str\<close>. \<open>JOther ty t r\<close> is any other
  value (a float, a list, a dict) of Python type \<open>ty\<close>, truth \<open>t\<close> and \<^verbatim>\<open>str()\<close> text \<open>r\<close>.
\<close>

datatype jval = JNull | JBool bool | JInt int | JStr string | JOther string bool string

fun truthy :: "jval \<Rightarrow> bool" where
  "truthy JNull = False"
| "truthy (JBool b) = b"
| "truthy (JInt n) = (n \<noteq> 0)"
| "truthy (JStr s) = (s \<noteq> [])"
| "truthy (JOther ty t r) = t"

text \<open>\<^verbatim>\<open>a or b\<close>\<close>

definition py_or :: "jval \<Rightarrow> jval \<Rightarrow> jval" where
  "py_or a b = (if truthy a then a else b)"

fun type_name :: "jval \<Rightarrow> string" where
  "type_name JNull = ''NoneType''"
| "type_name (JBool b) = ''bool''"
| "type_name (JInt n) = ''int''"
| "type_name (JStr s) = ''str''"
| "type_name (JOther ty t r) = ty"

definition digit :: "nat \<Rightarrow> char" where
  "digit d = char_of (48 + d)"

function string_of_nat :: "nat \<Rightarrow> string" where
  "string_of_nat n = (if n < 10 then [digit n] else string_of_nat (n div 10) @ [digit (n mod 10)])"
  by pat_completeness auto
termination
  by (relation "measure id") auto

declare string_of_nat.simps [simp del]

definition string_of_int :: "int \<Rightarrow> string" where
  "string_of_int i = (if i < 0 then CHR ''-'' # string_of_nat (nat (- i)) else string_of_nat (nat i))"

text \<open>\<^verbatim>\<open>str(v)\<close>\<close>

fun py_str :: "jval \<Rightarrow> string" where
  "py_str JNull = ''None''"
| "py_str (JBool b) = (if b then ''True'' else ''False'')"
| "py_str (JInt n) = string_of_int n"
| "py_str (JStr s) = s"
| "py_str (JOther ty t r) = r"

text \<open>\<^verbatim>\<open>s.startswith(p)\<close> and \<^verbatim>\<open>s.endswith(p)\<close>\<close>

fun starts_with :: "string \<Rightarrow> string \<Rightarrow> bool" where
  "starts_with [] s = True"
| "starts_with (p # ps) [] = False"
| "starts_with (p # ps) (c # cs) = (p = c \<and> starts_with ps cs)"

definition ends_with :: "string \<Rightarrow> string \<Rightarrow> bool" where
  "ends_with p s = starts_with (rev p) (rev s)"

text \<open>
  The characters that \<^verbatim>\<open>str.isspace\<close> holds of, each in UTF-8: tab to carriage return,
  the separators 28 to 31, the blank, U+0085, U+00A0, U+1680, U+2000 to U+200A, U+2028,
  U+2029, U+202F, U+205F and U+3000.
\<close>

definition WHITE_SPACE :: "string list" where
  "WHITE_SPACE =
     [[CHR 0x09],
      [CHR 0x0A],
      [CHR 0x0B],
      [CHR 0x0C],
      [CHR 0x0D],
      [CHR 0x1C],
      [CHR 0x1D],
      [CHR 0x1E],
      [CHR 0x1F],
      [CHR 0x20],
      [CHR 0xC2, CHR 0x85],
      [CHR 0xC2, CHR 0xA0],
      [CHR 0xE1, CHR 0x9A, CHR 0x80],
      [CHR 0xE2, CHR 0x80, CHR 0x80],
      [CHR 0xE2, CHR 0x80, CHR 0x81],
      [CHR 0xE2, CHR 0x80, CHR 0x82],
      [CHR 0xE2, CHR 0x80, CHR 0x83],
      [CHR 0xE2, CHR 0x80, CHR 0x84],
      [CHR 0xE2, CHR 0x80, CHR 0x85],
      [CHR 0xE2, CHR 0x80, CHR 0x86],
      [CHR 0xE2, CHR 0x80, CHR 0x87],
      [CHR 0xE2, CHR 0x80, CHR 0x88],
      [CHR 0xE2, CHR 0x80, CHR 0x89],
      [CHR 0xE2, CHR 0x80, CHR 0x8A],
      [CHR 0xE2, CHR 0x80, CHR 0xA8],
      [CHR 0xE2, CHR 0x80, CHR 0xA9],
      [CHR 0xE2, CHR 0x80, CHR 0xAF],
      [CHR 0xE2, CHR 0x81, CHR 0x9F],
      [CHR 0xE3, CHR 0x80, CHR 0x80]]"

text \<open>The number of bytes of the white space character that \<open>s\<close> starts or ends with, or 0.\<close>

definition space_prefix :: "string \<Rightarrow> nat" where
  "space_prefix s = (case filter (\<lambda>w. starts_with w s) WHITE_SPACE of [] \<Rightarrow> 0 | w # ws \<Rightarrow> length w)"

definition space_suffix :: "string \<Rightarrow> nat" where
  "space_suffix s = (case filter (\<lambda>w. ends_with w s) WHITE_SPACE of [] \<Rightarrow> 0 | w # ws \<Rightarrow> length w)"

text \<open>\<^verbatim>\<open>str.lstrip()\<close>, \<^verbatim>\<open>str.rstrip()\<close> and \<^verbatim>\<open>str.strip()\<close>\<close>

function py_lstrip :: "string \<Rightarrow> string" where
  "py_lstrip s = (if space_prefix s = 0 then s else py_lstrip (drop (space_prefix s) s))"
  by pat_completeness auto
termination
proof (relation "measure length")
  show "wf (measure length)" by simp
next
  fix s :: string
  assume a: "space_prefix s \<noteq> 0"
  have "s \<noteq> []"
  proof
    assume "s = []"
    then have "space_prefix s = 0" by (simp add: space_prefix_def WHITE_SPACE_def)
    with a show False by simp
  qed
  with a show "(drop (space_prefix s) s, s) \<in> measure length" by simp
qed

declare py_lstrip.simps [simp del]

function py_rstrip_space :: "string \<Rightarrow> string" where
  "py_rstrip_space s =
     (if space_suffix s = 0 then s else py_rstrip_space (take (length s - space_suffix s) s))"
  by pat_completeness auto
termination
proof (relation "measure length")
  show "wf (measure length)" by simp
next
  fix s :: string
  assume a: "space_suffix s \<noteq> 0"
  have "s \<noteq> []"
  proof
    assume "s = []"
    then have "space_suffix s = 0"
      by (simp add: space_suffix_def WHITE_SPACE_def ends_with_def)
    with a show False by simp
  qed
  with a show "(take (length s - space_suffix s) s, s) \<in> measure length" by simp
qed

declare py_rstrip_space.simps [simp del]

definition py_strip :: "string \<Rightarrow> string" where
  "py_strip s = py_lstrip (py_rstrip_space s)"

text \<open>\<^verbatim>\<open>str.rstrip(chars)\<close> for ASCII characters \<open>chars\<close>\<close>

definition py_rstrip :: "(char \<Rightarrow> bool) \<Rightarrow> string \<Rightarrow> string" where
  "py_rstrip p s = rev (dropWhile p (rev s))"

text \<open>The exceptions of the model, each with its \<^verbatim>\<open>str()\<close> text.\<close>

datatype py_error =
    AttributeError string
  | OSError string
  | Forbidden string
  | HTTPException string
  | IndexError string
  | TypeError string

fun error_text :: "py_error \<Rightarrow> string" where
  "error_text (AttributeError m) = m"
| "error_text (OSError m) = m"
| "error_text (Forbidden m) = m"
| "error_text (HTTPException m) = m"
| "error_text (IndexError m) = m"
| "error_text (TypeError m) = m"

definition apostrophe :: string where
  "apostrophe = [CHR 0x27]"

definition no_attribute :: "jval \<Rightarrow> string \<Rightarrow> py_error" where
  "no_attribute v a =
     AttributeError (apostrophe @ type_name v @ apostrophe @ '' object has no attribute ''
       @ apostrophe @ a @ apostrophe)"

section \<open>Snapshot items and their keys\<close>

text \<open>
  An element of the list that \<^verbatim>\<open>fetch_games\<close> returns: a dict (its keys and values, looked
  up with \<^verbatim>\<open>g.get\<close>), or any other JSON value, which has no \<^verbatim>\<open>get\<close>.
\<close>

datatype item = Obj "(string \<times> jval) list" | NonObj jval

text \<open>\<^verbatim>\<open>d.get(k)\<close>: \<^verbatim>\<open>None\<close> for a missing key.\<close>

definition dict_get :: "(string \<times> jval) list \<Rightarrow> string \<Rightarrow> jval" where
  "dict_get d k = (case map_of d k of None \<Rightarrow> JNull | Some v \<Rightarrow> v)"

record game_info =
  gi_name :: string
  gi_appid :: string
  gi_img :: jval

text \<open>
  The body of the loop over \<^verbatim>\<open>games\<close> (lines 221 to 226 and 459 to 464): name, appid and
  image of one item. \<^verbatim>\<open>g.get\<close> raises on an item that is no dict, \<^verbatim>\<open>.strip()\<close> on a
  truthy title that is no \<^verbatim>\<open>str\<close>.
\<close>

definition game_entry :: "item \<Rightarrow> py_error + game_info" where
  "game_entry g =
     (case g of
        NonObj v \<Rightarrow> Inl (no_attribute v ''get'')
      | Obj d \<Rightarrow>
          (case py_or (py_or (dict_get d ''title'') (dict_get d ''name'')) (JStr []) of
             JStr t \<Rightarrow>
               (let name = py_strip t;
                    appid = py_str (py_or (py_or (dict_get d ''appid'') (dict_get d ''id''))
                                      (JStr ''N/A''));
                    img = py_or (py_or (py_or (dict_get d ''img'') (dict_get d ''image''))
                                   (dict_get d ''header_image'')) JNull;
                    name = (if name = [] then ''Unknown Game ('' @ appid @ '')'' else name)
                in Inr \<lparr>gi_name = name, gi_appid = appid, gi_img = img\<rparr>)
           | v \<Rightarrow> Inl (no_attribute v ''strip'')))"

text \<open>\<^verbatim>\<open>key = name\<close>\<close>

definition game_key :: "item \<Rightarrow> py_error + string" where
  "game_key g = (case game_entry g of Inl e \<Rightarrow> Inl e | Inr i \<Rightarrow> Inr (gi_name i))"

text \<open>
  The loop of \<^verbatim>\<open>process_games_new_updated\<close> over \<^verbatim>\<open>games\<close>: it fills the set
  \<^verbatim>\<open>current_keys\<close> and the dict \<^verbatim>\<open>mapping\<close>, and stops at the first item that raises.
\<close>

fun scan_games ::
  "item list \<Rightarrow> string set \<Rightarrow> (string \<rightharpoonup> game_info) \<Rightarrow> py_error + string set \<times> (string \<rightharpoonup> game_info)"
where
  "scan_games [] current_keys mapping = Inr (current_keys, mapping)"
| "scan_games (g # gs) current_keys mapping =
     (case game_entry g of
        Inl e \<Rightarrow> Inl e
      | Inr i \<Rightarrow> scan_games gs (insert (gi_name i) current_keys) (mapping(gi_name i \<mapsto> i)))"

text \<open>The keys of the items of a snapshot, in snapshot order (an item that raises has none).\<close>

definition snapshot_keys :: "item list \<Rightarrow> string list" where
  "snapshot_keys games =
     concat (map (\<lambda>g. case game_key g of Inl e \<Rightarrow> [] | Inr k \<Rightarrow> [k]) games)"

section \<open>Embeds\<close>

text \<open>The literals of the source that are not ASCII, as the bytes of the source file.\<close>

definition GLYPH_GAME :: string where
  "GLYPH_GAME = [CHR 0xEF, CHR 0xA3, CHR 0xBF, CHR 0xC3, CHR 0xBC, CHR 0xC3, CHR 0xA9, CHR 0xC3, CHR 0x86]"

definition GLYPH_BOX :: string where
  "GLYPH_BOX = [CHR 0xEF, CHR 0xA3, CHR 0xBF, CHR 0xC3, CHR 0xBC, CHR 0xC3, CHR 0xAC, CHR 0xC2, CHR 0xB6]"

definition GLYPH_BULLET :: string where
  "GLYPH_BULLET = [CHR 0xE2, CHR 0x80, CHR 0x9A, CHR 0xC3, CHR 0x84, CHR 0xC2, CHR 0xA2]"

definition GLYPH_TOOLS :: string where
  "GLYPH_TOOLS = [CHR 0xEF, CHR 0xA3, CHR 0xBF, CHR 0xC3, CHR 0xBC, CHR 0xC3, CHR 0xB5, CHR 0xE2, CHR 0x80, CHR 0xA0,
                  CHR 0xC3, CHR 0x94, CHR 0xE2, CHR 0x88, CHR 0x8F, CHR 0xC3, CHR 0xA8]"

definition GLYPH_INBOX :: string where
  "GLYPH_INBOX = [CHR 0xEF, CHR 0xA3, CHR 0xBF, CHR 0xC3, CHR 0xBC, CHR 0xC3, CHR 0xAC, CHR 0xE2, CHR 0x80, CHR 0xA2]"

definition GLYPH_CROSS :: string where
  "GLYPH_CROSS = [CHR 0xE2, CHR 0x80, CHR 0x9A, CHR 0xC3, CHR 0xB9, CHR 0xC3, CHR 0xA5]"

definition GLYPH_CHECK :: string where
  "GLYPH_CHECK = [CHR 0xE2, CHR 0x80, CHR 0x9A, CHR 0xC3, CHR 0xBA, CHR 0xC3, CHR 0x96]"

definition GLYPH_WARN :: string where
  "GLYPH_WARN = [CHR 0xE2, CHR 0x80, CHR 0x9A, CHR 0xC3, CHR 0xB6, CHR 0xE2, CHR 0x80, CHR 0xA0]"

definition GLYPH_DOT :: string where
  "GLYPH_DOT = [CHR 0xE2, CHR 0x80, CHR 0x9A, CHR 0xC3, CHR 0xB3, CHR 0xC3, CHR 0xA8]"

definition GLYPH_DASH :: string where
  "GLYPH_DASH = [CHR 0xE2, CHR 0x80, CHR 0x9A, CHR 0xC3, CHR 0x84, CHR 0xC3, CHR 0xAE]"

definition GLYPH_PAGE :: string where
  "GLYPH_PAGE = [CHR 0xEF, CHR 0xA3, CHR 0xBF, CHR 0xC3, CHR 0xBC, CHR 0xC3, CHR 0xAC, CHR 0xC3, CHR 0x89]"

definition newline :: string where
  "newline = [CHR 0x0A]"

datatype colour = Blurple | Green

record embed =
  em_title :: string
  em_description :: string
  em_color :: colour
  em_image :: "string option"
  em_footer :: string

text \<open>\<^verbatim>\<open>Embed.set_image(url=u)\<close> keeps \<^verbatim>\<open>str(u)\<close>.\<close>

definition make_game_embed :: "string \<Rightarrow> string \<Rightarrow> jval \<Rightarrow> string \<Rightarrow> embed" where
  "make_game_embed name appid img kind =
     \<lparr>em_title = GLYPH_GAME @ '' '' @ name,
      em_description = GLYPH_BOX @ '' **Manifest for App ID:** `'' @ appid @ ''`'' @ newline
                         @ GLYPH_BULLET @ '' **Type:** '' @ kind,
      em_color = (if kind = ''NEW'' \<or> kind = ''UPDATED'' then Blurple else Green),
      em_image = (if truthy img then Some (py_str img) else None),
      em_footer = ''Steam Manifest Bot '' @ GLYPH_BULLET
                    @ '' Powered by JAY CAPARIDA AKA XALVENGE D.''\<rparr>"

definition make_fix_embed :: "string \<Rightarrow> string \<Rightarrow> string \<Rightarrow> embed" where
  "make_fix_embed name download_url size_text =
     \<lparr>em_title = GLYPH_TOOLS @ '' '' @ name,
      em_description = GLYPH_INBOX @ '' [Download ZIP]('' @ download_url @ '')'' @ newline
                         @ (if size_text \<noteq> [] then GLYPH_BULLET @ '' Size: '' @ size_text else []),
      em_color = Green,
      em_image = None,
      em_footer = ''Fix posted by Steam Manifest Bot '' @ GLYPH_BULLET @ '' XALVENGE D.''\<rparr>"

section \<open>The monitor and its surroundings\<close>

text \<open>
  What \<^verbatim>\<open>save_config\<close> dumps into \<^verbatim>\<open>game_config.json\<close>: the three channel ids and the
  three seen-sets (written as lists, in no particular order).
\<close>

record config_file =
  cf_channel_id_new :: "int option"
  cf_channel_id_update :: "int option"
  cf_channel_id_fixed :: "int option"
  cf_seen_new :: "string set"
  cf_seen_update :: "string set"
  cf_seen_fixed :: "string set"

text \<open>One call of \<^verbatim>\<open>save_config\<close>: the file it wrote, or the text of what \<^verbatim>\<open>open\<close> raised.\<close>

datatype save_call = Written config_file | WriteFailed string

text \<open>
  A \<^verbatim>\<open>GameMonitor\<close> with the effects it has had so far: \<open>notified\<close> are the calls of
  \<^verbatim>\<open>safe_send\<close> that had a channel id (the delivery attempts), \<open>delivered\<close> the calls of
  \<^verbatim>\<open>channel.send\<close> that returned, \<open>printed\<close> the lines of \<^verbatim>\<open>print\<close>, \<open>disk\<close> the calls of
  \<^verbatim>\<open>save_config\<close>, oldest first.
\<close>

record monitor =
  channel_id_new :: "int option"
  channel_id_update :: "int option"
  channel_id_fixed :: "int option"
  seen_new :: "string set"
  seen_update :: "string set"
  seen_fixed :: "string set"
  notified :: "(int \<times> embed) list"
  delivered :: "(int \<times> embed) list"
  printed :: "string list"
  disk :: "save_call list"

text \<open>
  What a call of the chat platform does: it returns, or raises \<^verbatim>\<open>discord.Forbidden\<close>, or
  raises another \<^verbatim>\<open>discord.HTTPException\<close>.
\<close>

datatype api_reply = Returns | RaisesForbidden string | RaisesOther string

definition api_error :: "api_reply \<Rightarrow> py_error option" where
  "api_error r =
     (case r of
        Returns \<Rightarrow> None
      | RaisesForbidden m \<Rightarrow> Some (Forbidden m)
      | RaisesOther m \<Rightarrow> Some (HTTPException m))"

text \<open>
  What the outside answers during one cycle or one command. A block of the fixes page (an
  element of \<^verbatim>\<open>anchors\<close>) is given by the three \<^verbatim>\<open>re.search\<close> results on it (group 1,
  or \<open>None\<close> for no match). \<open>write_reply\<close> is the text of what writing the file raises,
  \<open>edit_reply i\<close> of what \<^verbatim>\<open>msg.edit\<close> of page \<open>i\<close> of a listing raises, if anything.
  \<open>interaction_reply i\<close> is what the \<open>i\<close>-th call that a command handler awaits outside
  any \<^verbatim>\<open>try\<close> does, counted from 0 in the order of the calls: \<^verbatim>\<open>interaction.response.defer\<close>,
  then each \<^verbatim>\<open>interaction.followup.send\<close> and \<^verbatim>\<open>msg.fetch\<close>.
\<close>

datatype json_body = BodyRaises string | BodyList "item list" | BodyOther

datatype games_reply = GetRaises string | GetStatus int json_body

datatype send_reply = SendOk | SendForbidden | SendRaises string

record block =
  href_m :: "string option"
  name_m :: "string option"
  size_m :: "string option"

record env =
  games_reply :: games_reply
  fixes_reply :: "block list option"
  get_channel :: "int \<Rightarrow> bool"
  fetch_channel :: "int \<Rightarrow> bool"
  send_reply :: "int \<Rightarrow> embed \<Rightarrow> send_reply"
  write_reply :: "string option"
  edit_reply :: "nat \<Rightarrow> string option"
  interaction_reply :: "nat \<Rightarrow> api_reply"

definition print :: "string \<Rightarrow> monitor \<Rightarrow> monitor" where
  "print line s = s\<lparr>printed := printed s @ [line]\<rparr>"

definition config_of :: "monitor \<Rightarrow> config_file" where
  "config_of s =
     \<lparr>cf_channel_id_new = channel_id_new s,
      cf_channel_id_update = channel_id_update s,
      cf_channel_id_fixed = channel_id_fixed s,
      cf_seen_new = seen_new s,
      cf_seen_update = seen_update s,
      cf_seen_fixed = seen_fixed s\<rparr>"

text \<open>\<^verbatim>\<open>save_config\<close>: an error of \<^verbatim>\<open>open\<close> or \<^verbatim>\<open>json.dump\<close> is not caught here.\<close>

definition save_config :: "env \<Rightarrow> monitor \<Rightarrow> py_error option \<times> monitor" where
  "save_config env s =
     (case write_reply env of
        None \<Rightarrow> (None, s\<lparr>disk := disk s @ [Written (config_of s)]\<rparr>)
      | Some m \<Rightarrow> (Some (OSError m), s\<lparr>disk := disk s @ [WriteFailed m]\<rparr>))"

text \<open>\<^verbatim>\<open>fetch_games\<close>: every failure is printed and becomes the empty list.\<close>

definition fetch_games :: "env \<Rightarrow> monitor \<Rightarrow> item list \<times> monitor" where
  "fetch_games env s =
     (case games_reply env of
        GetRaises m \<Rightarrow> ([], print (''[ERROR] Exception in fetch_games(): '' @ m) s)
      | GetStatus status body \<Rightarrow>
          if status \<noteq> 200
          then ([], print (''[ERROR] Failed to fetch games.json: '' @ string_of_int status) s)
          else (case body of
                  BodyRaises m \<Rightarrow> ([], print (''[ERROR] Exception in fetch_games(): '' @ m) s)
                | BodyList data \<Rightarrow> (data, s)
                | BodyOther \<Rightarrow> ([], print ''[ERROR] Invalid JSON format from games.json'' s)))"

text \<open>A channel id is truthy: not \<^verbatim>\<open>None\<close> and not 0.\<close>

definition channel_set :: "int option \<Rightarrow> bool" where
  "channel_set ch = (case ch of None \<Rightarrow> False | Some c \<Rightarrow> c \<noteq> 0)"

definition safe_send :: "env \<Rightarrow> int option \<Rightarrow> embed \<Rightarrow> monitor \<Rightarrow> monitor" where
  "safe_send env channel_id e s =
     (case channel_id of
        None \<Rightarrow> s
      | Some c \<Rightarrow>
          if c = 0 then s
          else
            (let s = s\<lparr>notified := notified s @ [(c, e)]\<rparr> in
             if \<not> (get_channel env c \<or> fetch_channel env c)
             then print (''[ERROR] Channel '' @ string_of_int c @ '' not found for posting.'') s
             else (case send_reply env c e of
                     SendOk \<Rightarrow> s\<lparr>delivered := delivered s @ [(c, e)]\<rparr>
                   | SendForbidden \<Rightarrow>
                       print (''[ERROR] Missing access to channel '' @ string_of_int c) s
                   | SendRaises m \<Rightarrow>
                       print (''[ERROR] Failed to send embed to '' @ string_of_int c @ '': '' @ m) s)))"

section \<open>The games pipeline\<close>

text \<open>The loop that posts NEW (lines 238 to 243).\<close>

fun post_new ::
  "env \<Rightarrow> int option \<Rightarrow> (string \<rightharpoonup> game_info) \<Rightarrow> string list \<Rightarrow> monitor \<Rightarrow> monitor"
where
  "post_new env ch mapping [] s = s"
| "post_new env ch mapping (k # ks) s =
     (case mapping k of
        None \<Rightarrow> post_new env ch mapping ks s
      | Some e \<Rightarrow>
          post_new env ch mapping ks
            (safe_send env ch (make_game_embed (gi_name e) (gi_appid e) (gi_img e) ''NEW'') s))"

text \<open>The loop that posts UPDATED (lines 247 to 254): a key of \<^verbatim>\<open>new_keys\<close> is passed over.\<close>

fun post_updated ::
  "env \<Rightarrow> int option \<Rightarrow> string set \<Rightarrow> (string \<rightharpoonup> game_info) \<Rightarrow> string list \<Rightarrow> monitor \<Rightarrow> monitor"
where
  "post_updated env ch new_keys mapping [] s = s"
| "post_updated env ch new_keys mapping (k # ks) s =
     (if k \<in> new_keys then post_updated env ch new_keys mapping ks s
      else (case mapping k of
              None \<Rightarrow> post_updated env ch new_keys mapping ks s
            | Some e \<Rightarrow>
                post_updated env ch new_keys mapping ks
                  (safe_send env ch
                     (make_game_embed (gi_name e) (gi_appid e) (gi_img e) ''UPDATED'') s)))"

definition process_games_new_updated :: "env \<Rightarrow> monitor \<Rightarrow> py_error option \<times> monitor" where
  "process_games_new_updated env s =
     (let (games, s) = fetch_games env s in
      if games = [] then (None, s)
      else
        (case scan_games games {} Map.empty of
           Inl e \<Rightarrow> (Some e, s)
         | Inr (current_keys, mapping) \<Rightarrow>
             (let new_keys = current_keys - seen_new s;
                  update_keys = current_keys - seen_update s;
                  ch_new = channel_id_new s;
                  ch_update = channel_id_update s;
                  s = (if channel_set ch_new \<and> new_keys \<noteq> {}
                       then post_new env ch_new mapping (sorted_list_of_set new_keys) s
                       else s);
                  s = (if channel_set ch_update \<and> update_keys \<noteq> {}
                       then post_updated env ch_update new_keys mapping
                              (sorted_list_of_set update_keys) s
                       else s);
                  s = (if new_keys \<noteq> {} then s\<lparr>seen_new := seen_new s \<union> new_keys\<rparr> else s);
                  s = (if update_keys \<noteq> {} then s\<lparr>seen_update := seen_update s \<union> update_keys\<rparr>
                       else s)
              in if new_keys \<noteq> {} \<or> update_keys \<noteq> {} then save_config env s else (None, s))))"

section \<open>The fixes pipeline\<close>

record fix_item =
  fx_title :: string
  fx_download :: string
  fx_size :: string

text \<open>
  What a character of a pattern matches under \<^verbatim>\<open>re.I\<close>: a letter matches its two cases,
  and \<^verbatim>\<open>i\<close> also U+0130 and U+0131, \<^verbatim>\<open>s\<close> also U+017F, \<^verbatim>\<open>k\<close> also U+212A.
\<close>

definition ci_variants :: "char \<Rightarrow> string list" where
  "ci_variants c =
     (let n = (of_char c :: nat) in
      if c = CHR ''i'' \<or> c = CHR ''I'' then [''i'', ''I'', [CHR 0xC4, CHR 0xB0], [CHR 0xC4, CHR 0xB1]]
      else if c = CHR ''s'' \<or> c = CHR ''S'' then [''s'', ''S'', [CHR 0xC5, CHR 0xBF]]
      else if c = CHR ''k'' \<or> c = CHR ''K'' then [''k'', ''K'', [CHR 0xE2, CHR 0x84, CHR 0xAA]]
      else if 97 \<le> n \<and> n \<le> 122 then [[c], [char_of (n - 32)]]
      else if 65 \<le> n \<and> n \<le> 90 then [[c], [char_of (n + 32)]]
      else [[c]])"

text \<open>The strings that a pattern of plain characters matches under \<^verbatim>\<open>re.I\<close>.\<close>

fun ci_expand :: "string \<Rightarrow> string list" where
  "ci_expand [] = [[]]"
| "ci_expand (c # cs) = concat (map (\<lambda>v. map (\<lambda>w. v @ w) (ci_expand cs)) (ci_variants c))"

text \<open>The number of bytes at the end of \<open>s\<close> that the pattern matches, if it matches there.\<close>

definition ci_suffix :: "string \<Rightarrow> string \<Rightarrow> nat option" where
  "ci_suffix pat s =
     (case filter (\<lambda>v. ends_with v s) (ci_expand pat) of [] \<Rightarrow> None | v # vs \<Rightarrow> Some (length v))"

text \<open>
  \<^verbatim>\<open>re.sub(r'\.(zip|rar|7z|tar\.gz)$', '', s, flags=re.I)\<close>. The pattern matches at most
  once: at the end of \<open>s\<close>, or before a line feed that ends \<open>s\<close>.
\<close>

definition drop_ext :: "string \<Rightarrow> string option" where
  "drop_ext s =
     (case ci_suffix ''.zip'' s of
        Some n \<Rightarrow> Some (take (length s - n) s)
      | None \<Rightarrow>
     (case ci_suffix ''.rar'' s of
        Some n \<Rightarrow> Some (take (length s - n) s)
      | None \<Rightarrow>
     (case ci_suffix ''.7z'' s of
        Some n \<Rightarrow> Some (take (length s - n) s)
      | None \<Rightarrow>
     (case ci_suffix ''.tar.gz'' s of
        Some n \<Rightarrow> Some (take (length s - n) s)
      | None \<Rightarrow> None))))"

definition strip_ext :: "string \<Rightarrow> string" where
  "strip_ext s =
     (case drop_ext s of
        Some t \<Rightarrow> t
      | None \<Rightarrow>
          if s \<noteq> [] \<and> last s = CHR 0x0A
          then (case drop_ext (butlast s) of Some t \<Rightarrow> t @ newline | None \<Rightarrow> s)
          else s)"

text \<open>\<^verbatim>\<open>s.split('/')[-1]\<close>\<close>

definition last_segment :: "string \<Rightarrow> string" where
  "last_segment s = rev (takeWhile (\<lambda>c. c \<noteq> CHR ''/'') (rev s))"

text \<open>\<^verbatim>\<open>re.sub(r'%20', ' ', s)\<close>\<close>

fun replace_pct20 :: "string \<Rightarrow> string" where
  "replace_pct20 (a # b # c # rest) =
     (if a = CHR ''%'' \<and> b = CHR ''2'' \<and> c = CHR ''0'' then CHR '' '' # replace_pct20 rest
      else a # replace_pct20 (b # c # rest))"
| "replace_pct20 s = s"

text \<open>
  The body of the loop over \<^verbatim>\<open>anchors\<close> (lines 128 to 152): \<open>None\<close> is \<^verbatim>\<open>continue\<close>, the
  block yields no item.
\<close>

definition fix_of_block :: "block \<Rightarrow> fix_item option" where
  "fix_of_block b =
     (let href = href_m b;
          raw_name = map_option py_strip (name_m b);
          size_text = map_option py_strip (size_m b);
          title =
            (if raw_name \<noteq> None \<and> raw_name \<noteq> Some []
             then map_option (\<lambda>n. py_strip (strip_ext n)) raw_name
             else if href \<noteq> None \<and> href \<noteq> Some []
             then map_option
                    (\<lambda>h. strip_ext (replace_pct20 (last_segment (py_rstrip (\<lambda>c. c = CHR ''/'') h))))
                    href
             else None);
          href = (case href of
                    None \<Rightarrow> None
                  | Some h \<Rightarrow>
                      if starts_with ''/'' h then Some (''https://generator.ryuu.lol'' @ h)
                      else Some h)
      in case title of
           None \<Rightarrow> None
         | Some t \<Rightarrow>
             Some \<lparr>fx_title = t,
                   fx_download = (case href of None \<Rightarrow> [] | Some h \<Rightarrow> h),
                   fx_size = (case size_text of None \<Rightarrow> [] | Some z \<Rightarrow> z)\<rparr>)"

text \<open>\<^verbatim>\<open>dedupe by title preserving order\<close> (lines 155 to 161).\<close>

fun dedupe :: "fix_item list \<Rightarrow> string set \<Rightarrow> fix_item list" where
  "dedupe [] seen = []"
| "dedupe (x # xs) seen =
     (if fx_title x \<in> seen then dedupe xs seen else x # dedupe xs (insert (fx_title x) seen))"

text \<open>
  \<^verbatim>\<open>fetch_fixes\<close>: \<open>None\<close> is a page that \<^verbatim>\<open>safe_get_text\<close> could not get, or an empty one.
\<close>

definition fetch_fixes :: "env \<Rightarrow> fix_item list" where
  "fetch_fixes env =
     (case fixes_reply env of
        None \<Rightarrow> []
      | Some anchors \<Rightarrow> dedupe (List.map_filter fix_of_block anchors) {})"

text \<open>
  The loop of \<^verbatim>\<open>process_fixes\<close> over \<^verbatim>\<open>fixes\<close> (lines 271 to 279). An item of
  \<^verbatim>\<open>fetch_fixes\<close> has the keys \<^verbatim>\<open>title\<close>, \<^verbatim>\<open>download\<close> and \<^verbatim>\<open>size\<close>, each a \<^verbatim>\<open>str\<close>.
\<close>

fun scan_fixes ::
  "fix_item list \<Rightarrow> string set \<Rightarrow> (string \<rightharpoonup> fix_item) \<Rightarrow> string set \<times> (string \<rightharpoonup> fix_item)"
where
  "scan_fixes [] current_titles mapping = (current_titles, mapping)"
| "scan_fixes (f # fs) current_titles mapping =
     (let name = py_strip (fx_title f) in
      if name = [] then scan_fixes fs current_titles mapping
      else scan_fixes fs (insert name current_titles)
             (mapping(name \<mapsto> \<lparr>fx_title = name, fx_download = fx_download f, fx_size = fx_size f\<rparr>)))"

fun post_fixed ::
  "env \<Rightarrow> int option \<Rightarrow> (string \<rightharpoonup> fix_item) \<Rightarrow> string list \<Rightarrow> monitor \<Rightarrow> monitor"
where
  "post_fixed env ch mapping [] s = s"
| "post_fixed env ch mapping (k # ks) s =
     (case mapping k of
        None \<Rightarrow> post_fixed env ch mapping ks s
      | Some e \<Rightarrow>
          post_fixed env ch mapping ks
            (safe_send env ch (make_fix_embed (fx_title e) (fx_download e) (fx_size e)) s))"

definition process_fixes :: "env \<Rightarrow> monitor \<Rightarrow> py_error option \<times> monitor" where
  "process_fixes env s =
     (let fixes = fetch_fixes env in
      if fixes = [] then (None, s)
      else
        (let (current_titles, mapping) = scan_fixes fixes {} Map.empty;
             new_fixed = current_titles - seen_fixed s;
             ch_fixed = channel_id_fixed s;
             s = (if channel_set ch_fixed \<and> new_fixed \<noteq> {}
                  then post_fixed env ch_fixed mapping (sorted_list_of_set new_fixed) s
                  else s)
         in if new_fixed \<noteq> {}
            then save_config env (s\<lparr>seen_fixed := seen_fixed s \<union> new_fixed\<rparr>)
            else (None, s)))"

section \<open>The cycle of the game monitor\<close>

text \<open>\<^verbatim>\<open>check_for_new_games\<close>: an exception of the first pipeline skips the second.\<close>

definition check_for_new_games :: "env \<Rightarrow> monitor \<Rightarrow> py_error option \<times> monitor" where
  "check_for_new_games env s =
     (case process_games_new_updated env s of
        (Some e, s) \<Rightarrow> (Some e, s)
      | (None, s) \<Rightarrow> process_fixes env s)"

text \<open>
  The body of \<^verbatim>\<open>monitor_loop\<close>: the result is the exception that leaves the body, if any.
\<close>

definition monitor_loop :: "env \<Rightarrow> monitor \<Rightarrow> py_error option \<times> monitor" where
  "monitor_loop env s =
     (case check_for_new_games env s of
        (None, s) \<Rightarrow> (None, s)
      | (Some e, s) \<Rightarrow> (None, print (''[ERROR] Monitor loop exception: '' @ error_text e) s))"

section \<open>The manual commands\<close>

text \<open>
  The calls of a command handler that returned, in order: \<open>FollowupText t e\<close> is
  \<^verbatim>\<open>followup.send(t, ephemeral=e)\<close>, \<open>FollowupEmbed e\<close> is \<^verbatim>\<open>followup.send(embed=e)\<close>,
  \<open>Sleep n\<close> is \<^verbatim>\<open>asyncio.sleep(n)\<close>. A call that raises is not in the list: when it
  stands outside any \<^verbatim>\<open>try\<close> its exception ends the handler and is the handler's result.
\<close>

datatype response =
    Defer
  | FollowupText string bool
  | FollowupEmbed embed
  | MessageFetch
  | Sleep nat
  | MessageEdit embed

text \<open>
  Calls awaited one after the other with nothing between them, the first of them being
  call number \<open>i\<close>: they are made until one raises.
\<close>

fun interact :: "(nat \<Rightarrow> api_reply) \<Rightarrow> nat \<Rightarrow> response list \<Rightarrow> py_error option \<times> response list" where
  "interact reply i [] = (None, [])"
| "interact reply i (c # cs) =
     (case api_error (reply i) of
        Some e \<Rightarrow> (Some e, [])
      | None \<Rightarrow> (let (r, rs) = interact reply (Suc i) cs in (r, c # rs)))"

text \<open>\<^verbatim>\<open>sep.join(xs)\<close>\<close>

fun join :: "string \<Rightarrow> string list \<Rightarrow> string" where
  "join sep [] = []"
| "join sep [x] = x"
| "join sep (x # y # ys) = x @ sep @ join sep (y # ys)"

text \<open>\<^verbatim>\<open>s[:n]\<close>: the first \<open>n\<close> characters of \<open>s\<close>, each with its continuation bytes.\<close>

definition is_continuation :: "char \<Rightarrow> bool" where
  "is_continuation c = (let n = (of_char c :: nat) in 128 \<le> n \<and> n < 192)"

fun take_chars :: "nat \<Rightarrow> string \<Rightarrow> string" where
  "take_chars n [] = []"
| "take_chars n (c # cs) =
     (if is_continuation c then c # take_chars n cs
      else (case n of 0 \<Rightarrow> [] | Suc m \<Rightarrow> c # take_chars m cs))"

text \<open>\<^verbatim>\<open>[formatted[i:i+80] for i in range(0, len(formatted), 80)]\<close>\<close>

function chunks80 :: "'a list \<Rightarrow> 'a list list" where
  "chunks80 xs = (if xs = [] then [] else take 80 xs # chunks80 (drop 80 xs))"
  by pat_completeness auto
termination
  by (relation "measure length") auto

declare chunks80.simps [simp del]

text \<open>The loop of \<^verbatim>\<open>gamelist\<close> that formats the games (lines 404 to 407).\<close>

definition format_game :: "item \<Rightarrow> py_error + string" where
  "format_game g =
     (case g of
        NonObj v \<Rightarrow> Inl (no_attribute v ''get'')
      | Obj d \<Rightarrow>
          (let title = py_or (py_or (dict_get d ''title'') (dict_get d ''name''))
                         (JStr ''Unknown Game'');
               appid = py_or (py_or (dict_get d ''appid'') (dict_get d ''id'')) (JStr ''N/A'')
           in Inr (GLYPH_DOT @ '' **'' @ py_str title @ ''** '' @ GLYPH_DASH @ '' `''
                     @ py_str appid @ ''`'')))"

fun format_games :: "item list \<Rightarrow> py_error + string list" where
  "format_games [] = Inr []"
| "format_games (g # gs) =
     (case format_game g of
        Inl e \<Rightarrow> Inl e
      | Inr l \<Rightarrow> (case format_games gs of Inl e \<Rightarrow> Inl e | Inr ls \<Rightarrow> Inr (l # ls)))"

definition page_embed :: "nat \<Rightarrow> nat \<Rightarrow> nat \<times> string list \<Rightarrow> embed" where
  "page_embed n_games pages p =
     \<lparr>em_title = GLYPH_PAGE @ '' Game List ('' @ string_of_nat n_games @ '' total) '' @ GLYPH_DASH
                    @ '' Page '' @ string_of_nat (fst p) @ ''/'' @ string_of_nat pages,
      em_description = take_chars 4096 (join newline (snd p)),
      em_color = Blurple,
      em_image = None,
      em_footer = ''Steam Manifest Bot '' @ GLYPH_BULLET @ '' XALVENGE D.''\<rparr>"

text \<open>
  The loop over \<^verbatim>\<open>embeds[1:]\<close> (lines 428 to 433); \<open>i\<close> is the number of the page. An
  exception of \<^verbatim>\<open>msg.edit\<close> is printed and the loop goes on.
\<close>

fun edit_pages :: "env \<Rightarrow> nat \<Rightarrow> embed list \<Rightarrow> monitor \<Rightarrow> response list \<times> monitor" where
  "edit_pages env i [] s = ([], s)"
| "edit_pages env i (e # es) s =
     (case edit_reply env i of
        None \<Rightarrow>
          (let (rs, s) = edit_pages env (Suc i) es s in (Sleep 2 # MessageEdit e # rs, s))
      | Some m \<Rightarrow>
          (let (rs, s) = edit_pages env (Suc i) es (print (''[ERROR] Failed to edit message: '' @ m) s)
           in (Sleep 2 # rs, s)))"

text \<open>
  \<^verbatim>\<open>gamelist\<close> (lines 395 to 433): \<^verbatim>\<open>defer\<close> is call 0, \<^verbatim>\<open>followup.send\<close> call 1 and
  \<^verbatim>\<open>msg.fetch\<close> call 2 on the interaction.
\<close>

definition gamelist :: "env \<Rightarrow> monitor \<Rightarrow> py_error option \<times> response list \<times> monitor" where
  "gamelist env s =
     (case api_error (interaction_reply env 0) of
        Some e \<Rightarrow> (Some e, [], s)
      | None \<Rightarrow>
     (let (games, s) = fetch_games env s in
      if games = []
      then (let (r, rs) = interact (interaction_reply env) 1
                            [FollowupText (GLYPH_CROSS @ '' Failed to load game list.'') True]
            in (r, Defer # rs, s))
      else
        (case format_games games of
           Inl e \<Rightarrow> (Some e, [Defer], s)
         | Inr formatted \<Rightarrow>
             (let chunks = chunks80 formatted;
                  embeds = map (page_embed (length games) (length chunks))
                             (zip [1 ..< Suc (length chunks)] chunks)
              in case embeds of
                   [] \<Rightarrow> (Some (IndexError ''list index out of range''), [Defer], s)
                 | first # rest \<Rightarrow>
                     (case interact (interaction_reply env) 1 [FollowupEmbed first, MessageFetch] of
                        (Some e, rs) \<Rightarrow> (Some e, Defer # rs, s)
                      | (None, rs) \<Rightarrow>
                          (let (es, s) = edit_pages env 2 rest s
                           in (None, Defer # rs @ es, s)))))))"

text \<open>
  The loop of \<^verbatim>\<open>newgame\<close> over \<^verbatim>\<open>games\<close> (lines 458 to 466): \<^verbatim>\<open>current_keys\<close> is a list
  here, in snapshot order and with repetitions.
\<close>

fun scan_games_list ::
  "item list \<Rightarrow> string list \<Rightarrow> (string \<rightharpoonup> game_info) \<Rightarrow> py_error + string list \<times> (string \<rightharpoonup> game_info)"
where
  "scan_games_list [] current_keys mapping = Inr (current_keys, mapping)"
| "scan_games_list (g # gs) current_keys mapping =
     (case game_entry g of
        Inl e \<Rightarrow> Inl e
      | Inr i \<Rightarrow> scan_games_list gs (current_keys @ [gi_name i]) (mapping(gi_name i \<mapsto> i)))"

text \<open>
  The loop over \<^verbatim>\<open>new_keys[:10]\<close> (lines 474 to 477); the \<^verbatim>\<open>followup.send\<close> of its first
  round is call number \<open>i\<close> on the interaction.
\<close>

fun show_new ::
  "env \<Rightarrow> nat \<Rightarrow> (string \<rightharpoonup> game_info) \<Rightarrow> string list \<Rightarrow> py_error option \<times> response list"
where
  "show_new env i mapping [] = (None, [])"
| "show_new env i mapping (k # ks) =
     (case mapping k of
        None \<Rightarrow> (Some (TypeError (apostrophe @ ''NoneType'' @ apostrophe
                               @ '' object is not subscriptable'')), [])
      | Some e \<Rightarrow>
          (case api_error (interaction_reply env i) of
             Some err \<Rightarrow> (Some err, [])
           | None \<Rightarrow>
               (let (r, rs) = show_new env (Suc i) mapping ks
                in (r, FollowupEmbed (make_game_embed (gi_name e) (gi_appid e) (gi_img e) ''NEW'')
                         # rs))))"

text \<open>\<^verbatim>\<open>newgame\<close> (lines 450 to 480); \<^verbatim>\<open>defer\<close> is call 0 on the interaction.\<close>

definition newgame :: "env \<Rightarrow> monitor \<Rightarrow> py_error option \<times> response list \<times> monitor" where
  "newgame env s =
     (case api_error (interaction_reply env 0) of
        Some e \<Rightarrow> (Some e, [], s)
      | None \<Rightarrow>
     (let (games, s) = fetch_games env s in
      if games = []
      then (let (r, rs) = interact (interaction_reply env) 1
                            [FollowupText (GLYPH_CROSS @ '' Failed to load game list.'') True]
            in (r, Defer # rs, s))
      else
        (case scan_games_list games [] Map.empty of
           Inl e \<Rightarrow> (Some e, [Defer], s)
         | Inr (current_keys, mapping) \<Rightarrow>
             (let new_keys = filter (\<lambda>k. k \<notin> seen_new s) current_keys in
              if new_keys = []
              then (let (r, rs) = interact (interaction_reply env) 1
                                    [FollowupText (GLYPH_WARN @ '' No newly added games found.'') True]
                    in (r, Defer # rs, s))
              else
                (case show_new env 1 mapping (take 10 new_keys) of
                   (Some e, rs) \<Rightarrow> (Some e, Defer # rs, s)
                 | (None, rs) \<Rightarrow>
                     (if length new_keys > 10
                      then (let (r, ts) = interact (interaction_reply env) (Suc (length rs))
                                            [FollowupText
                                               (GLYPH_CHECK @ '' '' @ string_of_nat (length new_keys)
                                                  @ '' new games found '' @ GLYPH_DASH
                                                  @ '' showing first 10.'')
                                               True]
                            in (r, Defer # rs @ ts, s))
                      else (None, Defer # rs, s)))))))"

text \<open>\<^verbatim>\<open>fixegame\<close> (lines 489 to 501); \<^verbatim>\<open>defer\<close> is call 0 on the interaction.\<close>

definition fixegame :: "env \<Rightarrow> monitor \<Rightarrow> py_error option \<times> response list \<times> monitor" where
  "fixegame env s =
     (case api_error (interaction_reply env 0) of
        Some e \<Rightarrow> (Some e, [], s)
      | None \<Rightarrow>
     (let fixes = fetch_fixes env in
      if fixes = []
      then (let (r, rs) = interact (interaction_reply env) 1
                            [FollowupText (GLYPH_CROSS @ '' Failed to load fixes.'') True]
            in (r, Defer # rs, s))
      else
        (let (r, rs) = interact (interaction_reply env) 1
                         (map (\<lambda>f. FollowupEmbed (make_fix_embed (fx_title f) (fx_download f) (fx_size f)))
                            fixes
                          @ [FollowupText
                               (GLYPH_CHECK @ '' '' @ string_of_nat (length fixes) @ '' fixes found ''
                                  @ GLYPH_DASH @ '' all displayed.'')
                               True])
         in (r, Defer # rs, s))))"

text \<open>A sequence of invocations of the two peek commands, each with what the outside answers.\<close>

datatype peek = NewGame | FixeGame

fun run_peeks :: "(peek \<times> env) list \<Rightarrow> monitor \<Rightarrow> monitor" where
  "run_peeks [] s = s"
| "run_peeks ((NewGame, env) # cs) s = run_peeks cs (snd (snd (newgame env s)))"
| "run_peeks ((FixeGame, env) # cs) s = run_peeks cs (snd (snd (fixegame env s)))"

section \<open>The status monitor\<close>

definition ST_INFO :: string where
  "ST_INFO = [CHR 0xE2, CHR 0x84, CHR 0xB9, CHR 0xEF, CHR 0xB8, CHR 0x8F]"

definition ST_OK :: string where
  "ST_OK = [CHR 0xE2, CHR 0x9C, CHR 0x85]"

definition ST_WARN :: string where
  "ST_WARN = [CHR 0xE2, CHR 0x9A, CHR 0xA0, CHR 0xEF, CHR 0xB8, CHR 0x8F]"

definition ST_DOWN :: string where
  "ST_DOWN = [CHR 0xE2, CHR 0x9D, CHR 0x8C]"

definition ST_BELL :: string where
  "ST_BELL = [CHR 0xF0, CHR 0x9F, CHR 0x94, CHR 0x94]"

definition BANNER_IMAGE_URL :: string where
  "BANNER_IMAGE_URL = ''https://media.giphy.com/media/kyLYXonQYYfwYDIeZl/giphy.gif''"

definition CHECK_INTERVAL :: nat where
  "CHECK_INTERVAL = 5 * 60"

text \<open>
  What \<^verbatim>\<open>requests.get\<close> and the parser give \<^verbatim>\<open>fetch_status\<close>: the text of the exception
  raised inside its \<^verbatim>\<open>try\<close>, or the texts of the status divs of the page.
\<close>

datatype page_reply = PageRaises string | PageBlocks "string list"

text \<open>
  What the outside answers during one run of \<^verbatim>\<open>send_visual_status\<close> for a channel: the
  page at the first and at the second \<^verbatim>\<open>fetch_status\<close>, whether the channel is known,
  what \<^verbatim>\<open>channel.send\<close> does, and what \<^verbatim>\<open>msg.edit\<close> does at \<open>remaining\<close> seconds (0 is the
  edit after the countdown).
\<close>

record status_env =
  page_first :: "int \<Rightarrow> page_reply"
  page_second :: "int \<Rightarrow> page_reply"
  channel_known :: "int \<Rightarrow> bool"
  send_does :: "int \<Rightarrow> api_reply"
  edit_does :: "int \<Rightarrow> nat \<Rightarrow> api_reply"

text \<open>
  A \<^verbatim>\<open>StatusMonitor\<close>: its config (guild id and channel id, in the order of the dict) and
  its effects so far: the embeds that \<^verbatim>\<open>channel.send\<close> and \<^verbatim>\<open>msg.edit\<close> put into a
  channel, and the printed lines.
\<close>

record status_monitor =
  st_config :: "(string \<times> int) list"
  st_sent :: "(int \<times> embed) list"
  st_edited :: "(int \<times> embed) list"
  st_printed :: "string list"

definition st_print :: "string \<Rightarrow> status_monitor \<Rightarrow> status_monitor" where
  "st_print line s = s\<lparr>st_printed := st_printed s @ [line]\<rparr>"

text \<open>\<^verbatim>\<open>p in s\<close> on strings\<close>

fun contains :: "string \<Rightarrow> string \<Rightarrow> bool" where
  "contains p [] = (p = [])"
| "contains p (c # cs) = (starts_with p (c # cs) \<or> contains p cs)"

text \<open>
  \<^verbatim>\<open>s.lower()\<close>, as far as the ASCII letters of the result go: the letters A to Z, and
  the two characters outside ASCII whose lower case holds an ASCII letter, U+212A (its
  lower case is k) and U+0130 (i, then U+0307). Every other character outside ASCII is
  left as it is: its lower case has no ASCII letter, so no test for an ASCII word in the
  result depends on it.
\<close>

definition lower_char :: "char \<Rightarrow> char" where
  "lower_char c =
     (let n = (of_char c :: nat) in if 65 \<le> n \<and> n \<le> 90 then char_of (n + 32) else c)"

function py_lower :: "string \<Rightarrow> string" where
  "py_lower s =
     (if s = [] then []
      else if starts_with [CHR 0xE2, CHR 0x84, CHR 0xAA] s then CHR ''k'' # py_lower (drop 3 s)
      else if starts_with [CHR 0xC4, CHR 0xB0] s
      then CHR ''i'' # CHR 0xCC # CHR 0x87 # py_lower (drop 2 s)
      else lower_char (hd s) # py_lower (tl s))"
  by pat_completeness auto
termination
  by (relation "measure length") auto

declare py_lower.simps [simp del]

definition status_emoji :: "string \<Rightarrow> string" where
  "status_emoji status_text =
     (let st_lower = py_lower status_text in
      if contains ''ok'' st_lower then ST_OK
      else if contains ''maintenance'' st_lower then ST_WARN
      else if contains ''down'' st_lower then ST_DOWN
      else ST_INFO)"

fun status_lines :: "nat \<Rightarrow> string list \<Rightarrow> string list" where
  "status_lines idx [] = []"
| "status_lines idx (b # bs) =
     (let status_text = py_strip b in
      (status_emoji status_text @ '' Server '' @ string_of_nat idx @ '': '' @ status_text)
        # status_lines (Suc idx) bs)"

text \<open>\<^verbatim>\<open>fetch_status\<close>: the text it returns, which becomes the description of the embed.\<close>

definition fetch_status :: "page_reply \<Rightarrow> string" where
  "fetch_status r =
     (case r of
        PageRaises m \<Rightarrow> ST_DOWN @ '' Error fetching status: '' @ m
      | PageBlocks status_blocks \<Rightarrow>
          if status_blocks = [] then ST_INFO @ '' Could not find status blocks''
          else join newline (status_lines 1 status_blocks))"

text \<open>\<^verbatim>\<open>f"{n:02d}"\<close>\<close>

definition two_digits :: "nat \<Rightarrow> string" where
  "two_digits n = (if n < 10 then CHR ''0'' # string_of_nat n else string_of_nat n)"

definition footer_text :: "nat \<Rightarrow> string" where
  "footer_text remaining =
     ''Next update in '' @ two_digits (remaining div 60) @ '':'' @ two_digits (remaining mod 60)"

text \<open>
  The countdown loop (lines 90 to 99), one \<^verbatim>\<open>msg.edit\<close> a second: it runs out, or stops at
  a \<^verbatim>\<open>Forbidden\<close> (printed, and \<^verbatim>\<open>send_visual_status\<close> returns), or another exception of
  \<^verbatim>\<open>msg.edit\<close> leaves it.
\<close>

datatype countdown_end = RanOut | Stopped | Left py_error

fun countdown ::
  "status_env \<Rightarrow> int \<Rightarrow> embed \<Rightarrow> nat \<Rightarrow> status_monitor \<Rightarrow> countdown_end \<times> status_monitor"
where
  "countdown env c e 0 s = (RanOut, s)"
| "countdown env c e (Suc r) s =
     (case edit_does env c (Suc r) of
        Returns \<Rightarrow>
          countdown env c e r
            (s\<lparr>st_edited := st_edited s @ [(c, e\<lparr>em_footer := footer_text (Suc r)\<rparr>)]\<rparr>)
      | RaisesForbidden m \<Rightarrow>
          (Stopped,
           st_print (''Missing permission to edit message in channel '' @ string_of_int c) s)
      | RaisesOther m \<Rightarrow> (Left (HTTPException m), s))"

definition send_visual_status ::
  "status_env \<Rightarrow> int \<Rightarrow> status_monitor \<Rightarrow> py_error option \<times> status_monitor"
where
  "send_visual_status env channel_id s =
     (if \<not> channel_known env channel_id
      then (None, st_print (''Channel '' @ string_of_int channel_id @ '' not found.'') s)
      else
        (let status_msg = fetch_status (page_first env channel_id);
             e = \<lparr>em_title = ST_BELL @ '' Manifestor.cc Real-Time Status'',
                  em_description = status_msg,
                  em_color = Blurple,
                  em_image = Some BANNER_IMAGE_URL,
                  em_footer = footer_text CHECK_INTERVAL\<rparr>
         in case send_does env channel_id of
              RaisesForbidden m \<Rightarrow> (Some (Forbidden m), s)
            | RaisesOther m \<Rightarrow> (Some (HTTPException m), s)
            | Returns \<Rightarrow>
                (case countdown env channel_id e CHECK_INTERVAL
                        (s\<lparr>st_sent := st_sent s @ [(channel_id, e)]\<rparr>) of
                   (Stopped, s) \<Rightarrow> (None, s)
                 | (Left err, s) \<Rightarrow> (Some err, s)
                 | (RanOut, s) \<Rightarrow>
                     (let e = e\<lparr>em_description := fetch_status (page_second env channel_id),
                                em_footer := footer_text CHECK_INTERVAL\<rparr>
                      in case edit_does env channel_id 0 of
                           Returns \<Rightarrow>
                             (None, s\<lparr>st_edited := st_edited s @ [(channel_id, e)]\<rparr>)
                         | RaisesForbidden m \<Rightarrow> (Some (Forbidden m), s)
                         | RaisesOther m \<Rightarrow> (Some (HTTPException m), s)))))"

text \<open>
  The body of \<^verbatim>\<open>status_loop\<close> (lines 109 to 113): no \<^verbatim>\<open>try\<close> stands around the loop over
  the config, so an exception of \<^verbatim>\<open>send_visual_status\<close> leaves the body.
\<close>

fun status_loop_items ::
  "status_env \<Rightarrow> (string \<times> int) list \<Rightarrow> status_monitor \<Rightarrow> py_error option \<times> status_monitor"
where
  "status_loop_items env [] s = (None, s)"
| "status_loop_items env ((guild_id, channel_id) # rest) s =
     (case send_visual_status env channel_id s of
        (Some e, s) \<Rightarrow> (Some e, s)
      | (None, s) \<Rightarrow> status_loop_items env rest s)"

definition status_loop :: "status_env \<Rightarrow> status_monitor \<Rightarrow> py_error option \<times> status_monitor" where
  "status_loop env s = status_loop_items env (st_config s) s"

section \<open>The vocabulary of the statements\<close>

text \<open>
  The calls of \<^verbatim>\<open>safe_send\<close> that one of the two posting loops of the games pipeline makes
  for the keys \<open>ks\<close>, in order: none without a channel, and one for each key that
  \<^verbatim>\<open>mapping.get\<close> finds.
\<close>

definition alerts ::
  "int option \<Rightarrow> string \<Rightarrow> (string \<rightharpoonup> game_info) \<Rightarrow> string list \<Rightarrow> (int \<times> embed) list"
where
  "alerts ch kind mapping ks =
     (case ch of
        None \<Rightarrow> []
      | Some c \<Rightarrow>
          if c = 0 then []
          else List.map_filter
                 (\<lambda>k. map_option (\<lambda>e. (c, make_game_embed (gi_name e) (gi_appid e) (gi_img e) kind))
                        (mapping k)) ks)"

text \<open>The same for the posting loop of the fixes pipeline.\<close>

definition fix_alerts ::
  "int option \<Rightarrow> (string \<rightharpoonup> fix_item) \<Rightarrow> string list \<Rightarrow> (int \<times> embed) list"
where
  "fix_alerts ch mapping ks =
     (case ch of
        None \<Rightarrow> []
      | Some c \<Rightarrow>
          if c = 0 then []
          else List.map_filter
                 (\<lambda>k. map_option (\<lambda>e. (c, make_fix_embed (fx_title e) (fx_download e) (fx_size e)))
                        (mapping k)) ks)"

text \<open>
  What a games cycle hands to \<^verbatim>\<open>safe_send\<close>, given the keys \<open>K\<close> of the snapshot: the
  NEW alerts for the keys not in \<open>seen_new\<close>, then the UPDATED alerts for the keys not in
  \<open>seen_update\<close> that are not among the new keys, each in ascending order.
\<close>

definition games_posted ::
  "monitor \<Rightarrow> string set \<Rightarrow> (string \<rightharpoonup> game_info) \<Rightarrow> (int \<times> embed) list"
where
  "games_posted s K M =
     alerts (channel_id_new s) ''NEW'' M (sorted_list_of_set (K - seen_new s))
     @ alerts (channel_id_update s) ''UPDATED'' M
         (sorted_list_of_set ((K - seen_update s) - (K - seen_new s)))"

text \<open>The monitor after the two posting loops of \<^verbatim>\<open>process_games_new_updated\<close>.\<close>

definition games_posts_state ::
  "env \<Rightarrow> monitor \<Rightarrow> string set \<Rightarrow> (string \<rightharpoonup> game_info) \<Rightarrow> monitor"
where
  "games_posts_state env s K M =
     (let s2 = (if channel_set (channel_id_new s) \<and> K - seen_new s \<noteq> {}
                then post_new env (channel_id_new s) M (sorted_list_of_set (K - seen_new s)) s
                else s)
      in if channel_set (channel_id_update s) \<and> K - seen_update s \<noteq> {}
         then post_updated env (channel_id_update s) (K - seen_new s) M
                (sorted_list_of_set (K - seen_update s)) s2
         else s2)"

text \<open>The calls of \<^verbatim>\<open>safe_send\<close> made between the monitor \<open>s\<close> and the later monitor \<open>s'\<close>.\<close>

definition cycle_posts :: "monitor \<Rightarrow> monitor \<Rightarrow> (int \<times> embed) list" where
  "cycle_posts s s' = drop (length (notified s)) (notified s')"

text \<open>
  The two parts of what a games cycle hands to \<^verbatim>\<open>safe_send\<close>, and what identifies an alert:
  its channel and its title, which is the key of the item behind a glyph.
\<close>

definition new_feed :: "monitor \<Rightarrow> string set \<Rightarrow> (string \<rightharpoonup> game_info) \<Rightarrow> (int \<times> embed) list" where
  "new_feed s K M = alerts (channel_id_new s) ''NEW'' M (sorted_list_of_set (K - seen_new s))"

definition updated_feed :: "monitor \<Rightarrow> string set \<Rightarrow> (string \<rightharpoonup> game_info) \<Rightarrow> (int \<times> embed) list" where
  "updated_feed s K M =
     alerts (channel_id_update s) ''UPDATED'' M
       (sorted_list_of_set ((K - seen_update s) - (K - seen_new s)))"

definition titles :: "(int \<times> embed) list \<Rightarrow> (int \<times> string) list" where
  "titles posts = map (\<lambda>a. (fst a, em_title (snd a))) posts"

definition game_title :: "string \<Rightarrow> string" where
  "game_title k = GLYPH_GAME @ '' '' @ k"


text \<open>
  The pages of a listing (the list \<^verbatim>\<open>embeds\<close> of \<^verbatim>\<open>gamelist\<close>) and the calls that put a new
  message into the channel. Then, for the pages \<open>es\<close> that follow page \<open>i - 1\<close>: what showing
  them by edits of one message comes to (a sleep of 2 seconds before each page, and the
  edit to the page when \<^verbatim>\<open>msg.edit\<close> returns), and the lines printed for the edits that
  raise.
\<close>

definition list_pages :: "item list \<Rightarrow> string list \<Rightarrow> embed list" where
  "list_pages games formatted =
     (let chunks = chunks80 formatted
      in map (page_embed (length games) (length chunks)) (zip [1 ..< Suc (length chunks)] chunks))"

fun is_new_message :: "response \<Rightarrow> bool" where
  "is_new_message (FollowupText t e) = True"
| "is_new_message (FollowupEmbed e) = True"
| "is_new_message r = False"

definition page_edits :: "env \<Rightarrow> nat \<Rightarrow> embed list \<Rightarrow> response list" where
  "page_edits env i es =
     concat (map (\<lambda>(j, e). if edit_reply env j = None then [Sleep 2, MessageEdit e] else [Sleep 2])
               (zip [i ..< i + length es] es))"

definition edit_failures :: "env \<Rightarrow> nat \<Rightarrow> embed list \<Rightarrow> string list" where
  "edit_failures env i es =
     concat (map (\<lambda>j. case edit_reply env j of
                         None \<Rightarrow> []
                       | Some m \<Rightarrow> [''[ERROR] Failed to edit message: '' @ m])
               [i ..< i + length es])"

text \<open>
  The embeds that the loop of \<^verbatim>\<open>newgame\<close> shows for the keys \<open>ks\<close>, and the text of its
  closing message.
\<close>

definition peek_embeds :: "(string \<rightharpoonup> game_info) \<Rightarrow> string list \<Rightarrow> embed list" where
  "peek_embeds M ks =
     List.map_filter
       (\<lambda>k. map_option (\<lambda>e. make_game_embed (gi_name e) (gi_appid e) (gi_img e) ''NEW'') (M k)) ks"

definition count_text :: "nat \<Rightarrow> string" where
  "count_text n = GLYPH_CHECK @ '' '' @ string_of_nat n @ '' new games found '' @ GLYPH_DASH
                    @ '' showing first 10.''"

text \<open>The embed that \<^verbatim>\<open>send_visual_status\<close> posts for a status text.\<close>

definition status_embed :: "string \<Rightarrow> embed" where
  "status_embed status_msg =
     \<lparr>em_title = ST_BELL @ '' Manifestor.cc Real-Time Status'',
      em_description = status_msg,
      em_color = Blurple,
      em_image = Some BANNER_IMAGE_URL,
      em_footer = footer_text CHECK_INTERVAL\<rparr>"

section \<open>Inputs of the examples\<close>

definition env_down :: env where
  "env_down = \<lparr>games_reply = GetStatus 503 BodyOther, fixes_reply = None,
                get_channel = (\<lambda>c. True), fetch_channel = (\<lambda>c. False),
                send_reply = (\<lambda>c e. SendOk), write_reply = None, edit_reply = (\<lambda>i. None),
                interaction_reply = (\<lambda>i. Returns)\<rparr>"

definition monitor0 :: monitor where
  "monitor0 = \<lparr>channel_id_new = Some 1, channel_id_update = Some 2, channel_id_fixed = Some 3,
               seen_new = {''Alpha''}, seen_update = {}, seen_fixed = {},
               notified = [], delivered = [], printed = [], disk = []\<rparr>"

text \<open>A status channel in which the bot may not post: \<^verbatim>\<open>channel.send\<close> raises \<^verbatim>\<open>Forbidden\<close>.\<close>

definition status_env_forbidden :: status_env where
  "status_env_forbidden =
     \<lparr>page_first = (\<lambda>c. PageBlocks [''OK'']), page_second = (\<lambda>c. PageBlocks [''OK'']),
      channel_known = (\<lambda>c. True),
      send_does = (\<lambda>c. RaisesForbidden ''403 Forbidden (error code: 50013): Missing Permissions''),
      edit_does = (\<lambda>c r. Returns)\<rparr>"

definition status0 :: status_monitor where
  "status0 = \<lparr>st_config = [(''1'', 10)], st_sent = [], st_edited = [], st_printed = []\<rparr>"

definition games0 :: "item list" where
  "games0 = [Obj [(''title'', JStr ''Alpha''), (''appid'', JStr ''1'')],
             Obj [(''title'', JStr ''Beta''), (''appid'', JInt 2)]]"

definition env_ok :: env where
  "env_ok = \<lparr>games_reply = GetStatus 200 (BodyList games0),
             fixes_reply = Some [\<lparr>href_m = Some ''/files/Patch1.zip'', name_m = Some ''Patch1.zip'',
                                  size_m = None\<rparr>],
             get_channel = (\<lambda>c. True), fetch_channel = (\<lambda>c. False),
             send_reply = (\<lambda>c e. SendOk), write_reply = None, edit_reply = (\<lambda>i. None),
             interaction_reply = (\<lambda>i. Returns)\<rparr>"

definition monitor1 :: monitor where
  "monitor1 = \<lparr>channel_id_new = None, channel_id_update = Some 2, channel_id_fixed = None,
               seen_new = {''Alpha''}, seen_update = {}, seen_fixed = {},
               notified = [], delivered = [], printed = [], disk = []\<rparr>"

definition info0 :: "string \<rightharpoonup> game_info" where
  "info0 = [''Alpha'' \<mapsto> \<lparr>gi_name = ''Alpha'', gi_appid = ''1'', gi_img = JNull\<rparr>,
            ''Beta'' \<mapsto> \<lparr>gi_name = ''Beta'', gi_appid = ''2'', gi_img = JNull\<rparr>]"



text \<open>
  Blocks of a fixes page: one with neither file name nor link, one with a file name and a
  link but no size, one with a file name and nothing else, one with a link and nothing
  else, and one whose file name is a no-break space (U+00A0) and which has no link.
\<close>

definition block_bare :: block where
  "block_bare = \<lparr>href_m = None, name_m = None, size_m = Some ''1 MB''\<rparr>"

definition block_no_size :: block where
  "block_no_size = \<lparr>href_m = Some ''/files/Patch1.zip'', name_m = Some '' Patch1.ZIP '', size_m = None\<rparr>"

definition block_title_only :: block where
  "block_title_only = \<lparr>href_m = None, name_m = Some ''Fix.zip'', size_m = None\<rparr>"

definition block_link_only :: block where
  "block_link_only = \<lparr>href_m = Some ''/files/My%20Fix.rar'', name_m = None, size_m = None\<rparr>"

definition block_blank :: block where
  "block_blank = \<lparr>href_m = None, name_m = Some [CHR 0xC2, CHR 0xA0], size_m = None\<rparr>"

definition env_page :: env where
  "env_page = env_ok\<lparr>fixes_reply := Some [block_bare, block_no_size]\<rparr>"

definition env_partial :: env where
  "env_partial = env_ok\<lparr>fixes_reply := Some [block_title_only, block_link_only]\<rparr>"

text \<open>A snapshot of 81 games, which fills two pages of a listing.\<close>

definition games81 :: "item list" where
  "games81 = replicate 81 (Obj [(''title'', JStr ''Alpha''), (''appid'', JInt 7)])"

definition line7 :: string where
  "line7 = GLYPH_DOT @ '' **Alpha** '' @ GLYPH_DASH @ '' `7`''"

definition env81 :: env where
  "env81 = env_ok\<lparr>games_reply := GetStatus 200 (BodyList games81)\<rparr>"

text \<open>The same snapshot, where \<^verbatim>\<open>msg.fetch\<close> (call 2 on the interaction) raises.\<close>

definition env81_lost :: env where
  "env81_lost =
     env81\<lparr>interaction_reply :=
              (\<lambda>i. if i = 2 then RaisesOther ''404 Not Found (error code: 10008): Unknown Message''
                    else Returns)\<rparr>"

text \<open>The same snapshot, where the edit to page 2 raises.\<close>

definition env81_edit :: env where
  "env81_edit = env81\<lparr>edit_reply := (\<lambda>i. if i = 2 then Some ''503 Service Unavailable'' else None)\<rparr>"

text \<open>A snapshot of twelve games, named by \<^verbatim>\<open>name\<close>, in descending order of the names.\<close>

definition games12 :: "item list" where
  "games12 = map (\<lambda>n. Obj [(''name'', JStr (''Game '' @ string_of_nat n)), (''id'', JInt (int n))])
               [12, 11, 10, 9, 8, 7, 6, 5, 4, 3, 2, 1]"

definition env12 :: env where
  "env12 = env_ok\<lparr>games_reply := GetStatus 200 (BodyList games12)\<rparr>"

text \<open>
  A status page that cannot be fetched (\<^verbatim>\<open>requests.get\<close> raises at the first fetch), in a
  channel where posting and editing work; and a games snapshot whose one item is the
  number 5.
\<close>

definition status_env_timeout :: status_env where
  "status_env_timeout =
     \<lparr>page_first = (\<lambda>c. PageRaises ''Read timed out.''), page_second = (\<lambda>c. PageBlocks [''OK'']),
      channel_known = (\<lambda>c. True), send_does = (\<lambda>c. Returns), edit_does = (\<lambda>c r. Returns)\<rparr>"

definition env_bad_item :: env where
  "env_bad_item = env_ok\<lparr>games_reply := GetStatus 200 (BodyList [NonObj (JInt 5)])\<rparr>"

section \<open>What the loops keep and what they add\<close>

lemma safe_send_frame [simp]:
  "channel_id_new (safe_send env ch e s) = channel_id_new s"
  "channel_id_update (safe_send env ch e s) = channel_id_update s"
  "channel_id_fixed (safe_send env ch e s) = channel_id_fixed s"
  "seen_new (safe_send env ch e s) = seen_new s"
  "seen_update (safe_send env ch e s) = seen_update s"
  "seen_fixed (safe_send env ch e s) = seen_fixed s"
  "disk (safe_send env ch e s) = disk s"
  by (auto simp: safe_send_def print_def Let_def split: option.splits send_reply.splits)

lemma notified_safe_send:
  "notified (safe_send env ch e s) =
     notified s @ (case ch of None \<Rightarrow> [] | Some c \<Rightarrow> if c = 0 then [] else [(c, e)])"
  by (auto simp: safe_send_def print_def Let_def split: option.splits send_reply.splits)

lemma post_new_frame [simp]:
  "channel_id_new (post_new env ch m ks s) = channel_id_new s"
  "channel_id_update (post_new env ch m ks s) = channel_id_update s"
  "channel_id_fixed (post_new env ch m ks s) = channel_id_fixed s"
  "seen_new (post_new env ch m ks s) = seen_new s"
  "seen_update (post_new env ch m ks s) = seen_update s"
  "seen_fixed (post_new env ch m ks s) = seen_fixed s"
  "disk (post_new env ch m ks s) = disk s"
  by (induction ks arbitrary: s; simp split: option.splits)+

lemma post_updated_frame [simp]:
  "channel_id_new (post_updated env ch nk m ks s) = channel_id_new s"
  "channel_id_update (post_updated env ch nk m ks s) = channel_id_update s"
  "channel_id_fixed (post_updated env ch nk m ks s) = channel_id_fixed s"
  "seen_new (post_updated env ch nk m ks s) = seen_new s"
  "seen_update (post_updated env ch nk m ks s) = seen_update s"
  "seen_fixed (post_updated env ch nk m ks s) = seen_fixed s"
  "disk (post_updated env ch nk m ks s) = disk s"
  by (induction ks arbitrary: s; simp split: option.splits)+

lemma post_fixed_frame [simp]:
  "channel_id_new (post_fixed env ch m ks s) = channel_id_new s"
  "channel_id_update (post_fixed env ch m ks s) = channel_id_update s"
  "channel_id_fixed (post_fixed env ch m ks s) = channel_id_fixed s"
  "seen_new (post_fixed env ch m ks s) = seen_new s"
  "seen_update (post_fixed env ch m ks s) = seen_update s"
  "seen_fixed (post_fixed env ch m ks s) = seen_fixed s"
  "disk (post_fixed env ch m ks s) = disk s"
  by (induction ks arbitrary: s; simp split: option.splits)+

lemma notified_post_new:
  "notified (post_new env ch m ks s) = notified s @ alerts ch ''NEW'' m ks"
  by (induction ks arbitrary: s)
     (auto simp: alerts_def notified_safe_send List.map_filter_simps split: option.splits)

lemma notified_post_updated:
  "notified (post_updated env ch nk m ks s) =
     notified s @ alerts ch ''UPDATED'' m (filter (\<lambda>k. k \<notin> nk) ks)"
  by (induction ks arbitrary: s)
     (auto simp: alerts_def notified_safe_send List.map_filter_simps split: option.splits)

lemma scan_games_keys:
  "scan_games games K M = Inr (K', M') \<Longrightarrow>
     K' = K \<union> set (snapshot_keys games) \<and> dom M' = dom M \<union> set (snapshot_keys games)"
proof (induction games arbitrary: K M)
  case Nil
  then show ?case by (simp add: snapshot_keys_def)
next
  case (Cons g gs)
  then show ?case
    by (cases "game_entry g") (auto simp: snapshot_keys_def game_key_def)
qed

lemma scan_games_names:
  "scan_games games K M = Inr (K', M') \<Longrightarrow> \<forall>k e. M k = Some e \<longrightarrow> gi_name e = k \<Longrightarrow>
     \<forall>k e. M' k = Some e \<longrightarrow> gi_name e = k"
proof (induction games arbitrary: K M)
  case Nil
  then show ?case by simp
next
  case (Cons g gs)
  show ?case
  proof (cases "game_entry g")
    case (Inl e)
    with Cons.prems show ?thesis by simp
  next
    case (Inr i)
    with Cons.prems have
      "scan_games gs (insert (gi_name i) K) (M(gi_name i \<mapsto> i)) = Inr (K', M')"
      by simp
    moreover have "\<forall>k e. (M(gi_name i \<mapsto> i)) k = Some e \<longrightarrow> gi_name e = k"
      using Cons.prems(2) by auto
    ultimately show ?thesis by (rule Cons.IH)
  qed
qed

lemma filter_sorted_list_of_set:
  "finite A \<Longrightarrow> filter P (sorted_list_of_set A) = sorted_list_of_set {x \<in> A. P x}"
  by (rule sorted_distinct_set_unique) (auto simp: sorted_filter[where f=id, simplified])

lemma alerts_titles:
  assumes "\<forall>k e. m k = Some e \<longrightarrow> gi_name e = k" and "set ks \<subseteq> dom m" and "ch = Some c" and "c \<noteq> 0"
  shows "map (\<lambda>a. (fst a, em_title (snd a))) (alerts ch kind m ks) = map (\<lambda>k. (c, GLYPH_GAME @ '' '' @ k)) ks"
  using assms
  by (induction ks) (auto simp: alerts_def List.map_filter_simps make_game_embed_def)

lemma fetch_games_frame:
  "fetch_games env s = (games, s1) \<Longrightarrow>
     channel_id_new s1 = channel_id_new s \<and> channel_id_update s1 = channel_id_update s \<and>
     channel_id_fixed s1 = channel_id_fixed s \<and> seen_new s1 = seen_new s \<and>
     seen_update s1 = seen_update s \<and> seen_fixed s1 = seen_fixed s \<and>
     notified s1 = notified s \<and> delivered s1 = delivered s \<and> disk s1 = disk s"
  by (auto simp: fetch_games_def print_def split: games_reply.splits json_body.splits if_splits)

lemma alerts_unset [simp]: "\<not> channel_set ch \<Longrightarrow> alerts ch kind m ks = []"
  by (auto simp: alerts_def channel_set_def split: option.splits)

lemma alerts_Nil [simp]: "alerts ch kind m [] = []"
  by (auto simp: alerts_def List.map_filter_simps split: option.splits)

lemma save_config_frame [simp]:
  "channel_id_new (snd (save_config env s)) = channel_id_new s"
  "channel_id_update (snd (save_config env s)) = channel_id_update s"
  "channel_id_fixed (snd (save_config env s)) = channel_id_fixed s"
  "seen_new (snd (save_config env s)) = seen_new s"
  "seen_update (snd (save_config env s)) = seen_update s"
  "seen_fixed (snd (save_config env s)) = seen_fixed s"
  "notified (snd (save_config env s)) = notified s"
  "delivered (snd (save_config env s)) = delivered s"
  "printed (snd (save_config env s)) = printed s"
  by (simp_all add: save_config_def split: option.splits)

lemma post_new_guard:
  "notified (if channel_set ch \<and> A \<noteq> {} then post_new env ch M (sorted_list_of_set A) s else s)
     = notified s @ alerts ch ''NEW'' M (sorted_list_of_set A)"
  by (cases "A = {}"; cases "channel_set ch"; simp add: notified_post_new)

lemma post_updated_guard:
  "finite A \<Longrightarrow>
   notified (if channel_set ch \<and> A \<noteq> {} then post_updated env ch B M (sorted_list_of_set A) s else s)
     = notified s @ alerts ch ''UPDATED'' M (sorted_list_of_set (A - B))"
proof -
  assume fin: "finite A"
  have "{x \<in> A. x \<notin> B} = A - B" by auto
  with fin have "filter (\<lambda>k. k \<notin> B) (sorted_list_of_set A) = sorted_list_of_set (A - B)"
    by (simp add: filter_sorted_list_of_set)
  then show ?thesis
    by (cases "A = {}"; cases "channel_set ch"; simp add: notified_post_updated)
qed

lemma guard_frame [simp]:
  "channel_id_new (if c then post_new env ch M ks s else s) = channel_id_new s"
  "channel_id_update (if c then post_new env ch M ks s else s) = channel_id_update s"
  "channel_id_fixed (if c then post_new env ch M ks s else s) = channel_id_fixed s"
  "seen_new (if c then post_new env ch M ks s else s) = seen_new s"
  "seen_update (if c then post_new env ch M ks s else s) = seen_update s"
  "seen_fixed (if c then post_new env ch M ks s else s) = seen_fixed s"
  "disk (if c then post_new env ch M ks s else s) = disk s"
  "channel_id_new (if c then post_updated env ch B M ks s else s) = channel_id_new s"
  "channel_id_update (if c then post_updated env ch B M ks s else s) = channel_id_update s"
  "channel_id_fixed (if c then post_updated env ch B M ks s else s) = channel_id_fixed s"
  "seen_new (if c then post_updated env ch B M ks s else s) = seen_new s"
  "seen_update (if c then post_updated env ch B M ks s else s) = seen_update s"
  "seen_fixed (if c then post_updated env ch B M ks s else s) = seen_fixed s"
  "disk (if c then post_updated env ch B M ks s else s) = disk s"
  by simp_all

lemma process_games_unfold:
  assumes f: "fetch_games env s = (games, s1)" and ne: "games \<noteq> []"
    and sc: "scan_games games {} Map.empty = Inr (K, M)"
  shows "process_games_new_updated env s =
     (let s3 = games_posts_state env s1 K M;
          s5 = s3\<lparr>seen_new := seen_new s1 \<union> K, seen_update := seen_update s1 \<union> K\<rparr>
      in if K - seen_new s1 \<noteq> {} \<or> K - seen_update s1 \<noteq> {} then save_config env s5 else (None, s3))"
proof -
  have a: "A - B = {} \<Longrightarrow> (s::monitor)\<lparr>seen_new := B \<union> A\<rparr> = s\<lparr>seen_new := B\<rparr>" for A B s
    by (subgoal_tac "B \<union> A = B") auto
  show ?thesis
  using f ne sc
  apply (simp add: process_games_new_updated_def Let_def games_posts_state_def del: Diff_eq_empty_iff)
  apply (intro conjI impI)
  apply (auto simp del: Diff_eq_empty_iff intro!: arg_cong2[where f=save_config] monitor.equality)
  done
qed

lemma games_posts_state_frame [simp]:
  "channel_id_new (games_posts_state env s K M) = channel_id_new s"
  "channel_id_update (games_posts_state env s K M) = channel_id_update s"
  "channel_id_fixed (games_posts_state env s K M) = channel_id_fixed s"
  "seen_new (games_posts_state env s K M) = seen_new s"
  "seen_update (games_posts_state env s K M) = seen_update s"
  "seen_fixed (games_posts_state env s K M) = seen_fixed s"
  "disk (games_posts_state env s K M) = disk s"
  by (simp_all add: games_posts_state_def Let_def del: Diff_eq_empty_iff)

lemma notified_games_posts_state:
  assumes fin: "finite K"
  shows "notified (games_posts_state env s K M) = notified s @ games_posted s K M"
proof -
  let ?s2 = "if channel_set (channel_id_new s) \<and> K - seen_new s \<noteq> {}
             then post_new env (channel_id_new s) M (sorted_list_of_set (K - seen_new s)) s
             else s"
  have a: "notified ?s2 =
             notified s @ alerts (channel_id_new s) ''NEW'' M (sorted_list_of_set (K - seen_new s))"
    by (rule post_new_guard)
  have b: "notified (if channel_set (channel_id_update s) \<and> K - seen_update s \<noteq> {}
                     then post_updated env (channel_id_update s) (K - seen_new s) M
                            (sorted_list_of_set (K - seen_update s)) ?s2
                     else ?s2)
           = notified ?s2 @ alerts (channel_id_update s) ''UPDATED'' M
               (sorted_list_of_set ((K - seen_update s) - (K - seen_new s)))"
    by (rule post_updated_guard) (simp add: fin)
  show ?thesis
    unfolding games_posts_state_def Let_def games_posted_def
    by (simp only: a b append_assoc)
qed

lemma process_games_posts:
  assumes f: "fetch_games env s = (games, s1)" and ne: "games \<noteq> []"
    and sc: "scan_games games {} Map.empty = Inr (K, M)"
  shows "cycle_posts s (snd (process_games_new_updated env s)) = games_posted s K M"
proof -
  have fin: "finite K" using scan_games_keys[OF sc] by simp
  have fr: "seen_new s1 = seen_new s" "seen_update s1 = seen_update s"
    "channel_id_new s1 = channel_id_new s" "channel_id_update s1 = channel_id_update s"
    "notified s1 = notified s"
    using fetch_games_frame[OF f] by simp_all
  have "games_posted s1 K M = games_posted s K M"
    by (simp add: games_posted_def fr)
  then show ?thesis
    by (simp add: process_games_unfold[OF f ne sc] Let_def cycle_posts_def
          notified_games_posts_state[OF fin] fr del: Diff_eq_empty_iff)
qed

lemma process_games_state:
  assumes f: "fetch_games env s = (games, s1)" and ne: "games \<noteq> []"
    and sc: "scan_games games {} Map.empty = Inr (K, M)"
  shows "seen_new (snd (process_games_new_updated env s)) = seen_new s \<union> K"
    and "seen_update (snd (process_games_new_updated env s)) = seen_update s \<union> K"
    and "seen_fixed (snd (process_games_new_updated env s)) = seen_fixed s"
    and "channel_id_new (snd (process_games_new_updated env s)) = channel_id_new s"
    and "channel_id_update (snd (process_games_new_updated env s)) = channel_id_update s"
    and "channel_id_fixed (snd (process_games_new_updated env s)) = channel_id_fixed s"
proof -
  have fr: "seen_new s1 = seen_new s" "seen_update s1 = seen_update s" "seen_fixed s1 = seen_fixed s"
    "channel_id_new s1 = channel_id_new s" "channel_id_update s1 = channel_id_update s"
    "channel_id_fixed s1 = channel_id_fixed s"
    using fetch_games_frame[OF f] by simp_all
  show "seen_new (snd (process_games_new_updated env s)) = seen_new s \<union> K"
    by (auto simp: process_games_unfold[OF f ne sc] Let_def fr)
  show "seen_update (snd (process_games_new_updated env s)) = seen_update s \<union> K"
    by (auto simp: process_games_unfold[OF f ne sc] Let_def fr)
  show "seen_fixed (snd (process_games_new_updated env s)) = seen_fixed s"
    by (simp add: process_games_unfold[OF f ne sc] Let_def fr del: Diff_eq_empty_iff)
  show "channel_id_new (snd (process_games_new_updated env s)) = channel_id_new s"
    by (simp add: process_games_unfold[OF f ne sc] Let_def fr del: Diff_eq_empty_iff)
  show "channel_id_update (snd (process_games_new_updated env s)) = channel_id_update s"
    by (simp add: process_games_unfold[OF f ne sc] Let_def fr del: Diff_eq_empty_iff)
  show "channel_id_fixed (snd (process_games_new_updated env s)) = channel_id_fixed s"
    by (simp add: process_games_unfold[OF f ne sc] Let_def fr del: Diff_eq_empty_iff)
qed

lemma disk_save_config:
  "disk (snd (save_config env s)) =
     disk s @ [case write_reply env of None \<Rightarrow> Written (config_of (snd (save_config env s)))
               | Some m \<Rightarrow> WriteFailed m]"
  by (simp add: save_config_def config_of_def split: option.splits)

lemma fst_save_config: "fst (save_config env s) = map_option OSError (write_reply env)"
  by (simp add: save_config_def split: option.splits)

lemma process_games_disk:
  assumes f: "fetch_games env s = (games, s1)" and ne: "games \<noteq> []"
    and sc: "scan_games games {} Map.empty = Inr (K, M)"
  shows "disk (snd (process_games_new_updated env s)) =
           disk s @ (if K - seen_new s \<noteq> {} \<or> K - seen_update s \<noteq> {}
                     then [case write_reply env of
                             None \<Rightarrow> Written (config_of (snd (process_games_new_updated env s)))
                           | Some m \<Rightarrow> WriteFailed m]
                     else [])"
    and "fst (process_games_new_updated env s) =
           (if K - seen_new s \<noteq> {} \<or> K - seen_update s \<noteq> {}
            then map_option OSError (write_reply env) else None)"
proof -
  have fr: "seen_new s1 = seen_new s" "seen_update s1 = seen_update s" "disk s1 = disk s"
    using fetch_games_frame[OF f] by simp_all
  show "disk (snd (process_games_new_updated env s)) =
           disk s @ (if K - seen_new s \<noteq> {} \<or> K - seen_update s \<noteq> {}
                     then [case write_reply env of
                             None \<Rightarrow> Written (config_of (snd (process_games_new_updated env s)))
                           | Some m \<Rightarrow> WriteFailed m]
                     else [])"
    by (simp add: process_games_unfold[OF f ne sc] Let_def fr disk_save_config
          del: Diff_eq_empty_iff split: option.splits)
  show "fst (process_games_new_updated env s) =
           (if K - seen_new s \<noteq> {} \<or> K - seen_update s \<noteq> {}
            then map_option OSError (write_reply env) else None)"
    by (simp add: process_games_unfold[OF f ne sc] Let_def fr fst_save_config
          del: Diff_eq_empty_iff)
qed

lemma fetch_games_printed_only:
  "fetch_games env s = (games, s1) \<Longrightarrow> s1 = s\<lparr>printed := printed s1\<rparr>"
  by (auto simp: fetch_games_def print_def split: games_reply.splits json_body.splits if_splits)

lemma fetch_games_empty_iff:
  "fst (fetch_games env s) = [] \<longleftrightarrow>
     (\<forall>data. games_reply env = GetStatus 200 (BodyList data) \<longrightarrow> data = [])"
  by (auto simp: fetch_games_def split: games_reply.splits json_body.splits)

section \<open>Claims\<close>

text \<open>
  C7. When the games fetch gives nothing (\<^verbatim>\<open>fetch_games\<close> returns the empty list: the source
  was unavailable, or the snapshot is empty), \<^verbatim>\<open>process_games_new_updated\<close> returns at once:
  the monitor is as before but for the printed lines, so nothing is announced, no seen-set
  and no channel id changes, and \<^verbatim>\<open>save_config\<close> is not called. When the fixes fetch gives
  nothing, \<^verbatim>\<open>process_fixes\<close> leaves the monitor as it is. When both give nothing, so does the
  whole cycle.
\<close>

theorem unavailable_cycle_changes_nothing:
  "(fetch_games env s = ([], s1) \<longrightarrow>
      process_games_new_updated env s = (None, s\<lparr>printed := printed s1\<rparr>)) \<and>
   (fetch_fixes env = [] \<longrightarrow> process_fixes env s = (None, s)) \<and>
   (fetch_games env s = ([], s1) \<and> fetch_fixes env = [] \<longrightarrow>
      monitor_loop env s = (None, s\<lparr>printed := printed s1\<rparr>))"
proof (intro conjI impI)
  assume f: "fetch_games env s = ([], s1)"
  then show g: "process_games_new_updated env s = (None, s\<lparr>printed := printed s1\<rparr>)"
    using fetch_games_printed_only[OF f] by (simp add: process_games_new_updated_def)
next
  assume "fetch_fixes env = []"
  then show "process_fixes env s = (None, s)"
    by (simp add: process_fixes_def)
next
  assume a: "fetch_games env s = ([], s1) \<and> fetch_fixes env = []"
  then have f: "fetch_games env s = ([], s1)" and x: "fetch_fixes env = []" by simp_all
  have g: "process_games_new_updated env s = (None, s\<lparr>printed := printed s1\<rparr>)"
    using f fetch_games_printed_only[OF f] by (simp add: process_games_new_updated_def)
  show "monitor_loop env s = (None, s\<lparr>printed := printed s1\<rparr>)"
    by (simp add: monitor_loop_def check_for_new_games_def g process_fixes_def x)
qed

theorem unavailable_cycle_witness:
  "monitor_loop env_down monitor0
     = (None, monitor0\<lparr>printed := [''[ERROR] Failed to fetch games.json: 503'']\<rparr>)"
proof -
  have a: "fetch_games env_down monitor0
             = ([], monitor0\<lparr>printed := [''[ERROR] Failed to fetch games.json: 503'']\<rparr>)"
    by code_simp
  have b: "fetch_fixes env_down = []"
    by code_simp
  from unavailable_cycle_changes_nothing
         [of env_down monitor0 "monitor0\<lparr>printed := [''[ERROR] Failed to fetch games.json: 503'']\<rparr>"]
       a b
  show ?thesis by simp
qed

text \<open>The body of \<^verbatim>\<open>monitor_loop\<close> lets no exception out: its \<^verbatim>\<open>try\<close> catches them all.\<close>

lemma monitor_loop_catches: "fst (monitor_loop env s) = None"
  by (simp add: monitor_loop_def split: prod.splits option.splits)

text \<open>
  C4. The claim fails for the status feed: the body of \<^verbatim>\<open>status_loop\<close> has no \<^verbatim>\<open>try\<close>, and
  \<^verbatim>\<open>send_visual_status\<close> catches \<^verbatim>\<open>Forbidden\<close> only around the edits of the countdown. With
  one configured channel in which \<^verbatim>\<open>channel.send\<close> raises \<^verbatim>\<open>Forbidden\<close>, the exception leaves
  the body of the cycle.
\<close>

theorem status_loop_lets_forbidden_out:
  "fst (status_loop status_env_forbidden status0)
     = Some (Forbidden ''403 Forbidden (error code: 50013): Missing Permissions'')"
  by code_simp

lemma newgame_state:
  "snd (snd (newgame env s)) = s \<or> snd (snd (newgame env s)) = snd (fetch_games env s)"
  by (simp add: newgame_def Let_def split: prod.splits sum.splits option.splits)

lemma fixegame_state: "snd (snd (fixegame env s)) = s"
  by (simp add: fixegame_def Let_def split: prod.splits option.splits)

lemma fetch_games_snd_frame:
  "seen_new (snd (fetch_games env s)) = seen_new s"
  "seen_update (snd (fetch_games env s)) = seen_update s"
  "seen_fixed (snd (fetch_games env s)) = seen_fixed s"
  "channel_id_new (snd (fetch_games env s)) = channel_id_new s"
  "channel_id_update (snd (fetch_games env s)) = channel_id_update s"
  "channel_id_fixed (snd (fetch_games env s)) = channel_id_fixed s"
  "disk (snd (fetch_games env s)) = disk s"
  "notified (snd (fetch_games env s)) = notified s"
  "delivered (snd (fetch_games env s)) = delivered s"
  using fetch_games_frame[of env s "fst (fetch_games env s)" "snd (fetch_games env s)"]
  by simp_all

text \<open>
  C6. Any sequence of invocations of the two peek commands \<^verbatim>\<open>newgame\<close> and \<^verbatim>\<open>fixegame\<close>,
  whatever the outside answers to each, leaves the three seen-sets as they were and calls
  \<^verbatim>\<open>save_config\<close> not once.
\<close>

theorem peeks_keep_seen_sets:
  "seen_new (run_peeks cs s) = seen_new s \<and>
   seen_update (run_peeks cs s) = seen_update s \<and>
   seen_fixed (run_peeks cs s) = seen_fixed s \<and>
   disk (run_peeks cs s) = disk s"
proof (induction cs arbitrary: s)
  case Nil
  show ?case by simp
next
  case (Cons c cs)
  obtain p env where c: "c = (p, env)" by (cases c)
  show ?case
  proof (cases p)
    case NewGame
    with c Cons.IH[of "snd (snd (newgame env s))"] newgame_state[of env s] show ?thesis
      by (auto simp: fetch_games_snd_frame)
  next
    case FixeGame
    with c Cons.IH[of "snd (snd (fixegame env s))"] show ?thesis
      by (simp add: fixegame_state)
  qed
qed

lemma games_posted_feeds: "games_posted s K M = new_feed s K M @ updated_feed s K M"
  by (simp add: games_posted_def new_feed_def updated_feed_def)

lemma scan_games_ok:
  assumes sc: "scan_games games {} Map.empty = Inr (K, M)"
  shows "K = set (snapshot_keys games)" and "dom M = K" and "finite K"
    and "\<forall>k e. M k = Some e \<longrightarrow> gi_name e = k"
proof -
  show k: "K = set (snapshot_keys games)" using scan_games_keys[OF sc] by simp
  show "dom M = K" using scan_games_keys[OF sc] by simp
  show "finite K" using k by simp
  show "\<forall>k e. M k = Some e \<longrightarrow> gi_name e = k"
    by (rule scan_games_names[OF sc]) simp
qed

lemma titles_alerts:
  assumes "\<forall>k e. M k = Some e \<longrightarrow> gi_name e = k" and "set ks \<subseteq> dom M" and "c \<noteq> 0"
  shows "titles (alerts (Some c) kind M ks) = map (\<lambda>k. (c, game_title k)) ks"
  using alerts_titles[OF assms(1,2) refl assms(3)] by (simp add: titles_def game_title_def)

text \<open>
  C1, as stated, fails. A snapshot with the keys Alpha and Beta, Alpha already in
  \<open>seen_new\<close>, nothing in \<open>seen_update\<close>, channel 1 for NEW and channel 2 for UPDATED: the
  cycle announces Beta on the NEW feed and Alpha on the UPDATED feed. The keys of the
  snapshot less \<open>seen_update\<close> are Alpha and Beta, but the UPDATED feed announces Alpha
  alone, since Beta is a new key and is passed over; and the keys announced in the cycle,
  Alpha and Beta, are not the keys of the snapshot less \<open>seen_new\<close>, which is Beta alone.
\<close>

theorem announced_is_not_the_diff:
  "fst (fetch_games env_ok monitor0) = games0 \<and>
   channel_id_new monitor0 = Some 1 \<and> channel_id_update monitor0 = Some 2 \<and>
   cycle_posts monitor0 (snd (process_games_new_updated env_ok monitor0))
     = [(1, make_game_embed ''Beta'' ''2'' JNull ''NEW''),
        (2, make_game_embed ''Alpha'' ''1'' JNull ''UPDATED'')] \<and>
   set (snapshot_keys games0) - seen_new monitor0 = {''Beta''} \<and>
   set (snapshot_keys games0) - seen_update monitor0 = {''Alpha'', ''Beta''}"
  by code_simp

text \<open>
  C1, amended. For every snapshot that \<^verbatim>\<open>fetch_games\<close> returns, not empty and with a key for
  every item (the scan of the items raises nothing), and for all seen-sets: the keys \<open>K\<close> of
  the cycle are the keys of the items; the cycle hands to \<^verbatim>\<open>safe_send\<close> first the NEW alerts,
  then the UPDATED alerts; with a channel for NEW, the NEW alerts are those of the keys of
  \<open>K\<close> not in \<open>seen_new\<close>, one each, in ascending order of the keys; with a channel for
  UPDATED, the UPDATED alerts are those of the keys of \<open>K\<close> not in \<open>seen_update\<close> and not
  among the new keys, one each, in ascending order; a feed without a channel gets nothing.
  (\<open>sorted_list_of_set\<close> of a finite set lists its elements once each, in ascending order.)
\<close>

theorem games_cycle_announces_sorted_diffs:
  assumes f: "fetch_games env s = (games, s1)" and ne: "games \<noteq> []"
    and sc: "scan_games games {} Map.empty = Inr (K, M)"
  shows "K = set (snapshot_keys games) \<and>
         cycle_posts s (snd (process_games_new_updated env s)) = new_feed s K M @ updated_feed s K M \<and>
         (\<forall>c. channel_id_new s = Some c \<and> c \<noteq> 0 \<longrightarrow>
              titles (new_feed s K M)
                = map (\<lambda>k. (c, game_title k)) (sorted_list_of_set (K - seen_new s))) \<and>
         (\<forall>c. channel_id_update s = Some c \<and> c \<noteq> 0 \<longrightarrow>
              titles (updated_feed s K M)
                = map (\<lambda>k. (c, game_title k))
                    (sorted_list_of_set ((K - seen_update s) - (K - seen_new s)))) \<and>
         (\<not> channel_set (channel_id_new s) \<longrightarrow> new_feed s K M = []) \<and>
         (\<not> channel_set (channel_id_update s) \<longrightarrow> updated_feed s K M = [])"
proof -
  note ok = scan_games_ok[OF sc]
  have a: "cycle_posts s (snd (process_games_new_updated env s)) = new_feed s K M @ updated_feed s K M"
    using process_games_posts[OF f ne sc] by (simp add: games_posted_feeds)
  have b: "titles (new_feed s K M) = map (\<lambda>k. (c, game_title k)) (sorted_list_of_set (K - seen_new s))"
    if "channel_id_new s = Some c" "c \<noteq> 0" for c
    using that ok by (simp add: new_feed_def titles_alerts)
  have c: "titles (updated_feed s K M)
             = map (\<lambda>k. (c, game_title k)) (sorted_list_of_set ((K - seen_update s) - (K - seen_new s)))"
    if "channel_id_update s = Some c" "c \<noteq> 0" for c
  proof -
    have "set (sorted_list_of_set ((K - seen_update s) - (K - seen_new s))) \<subseteq> dom M"
      using ok by auto
    then show ?thesis
      using that ok(4) by (simp add: updated_feed_def titles_alerts del: set_sorted_list_of_set)
  qed
  show ?thesis
    using ok(1) a b c by (simp add: new_feed_def updated_feed_def)
qed

lemma scan0: "scan_games games0 {} Map.empty = Inr ({''Beta'', ''Alpha''}, info0)"
proof -
  have 1: "game_entry (Obj [(''title'', JStr ''Alpha''), (''appid'', JStr ''1'')])
             = Inr \<lparr>gi_name = ''Alpha'', gi_appid = ''1'', gi_img = JNull\<rparr>"
    by code_simp
  have 2: "game_entry (Obj [(''title'', JStr ''Beta''), (''appid'', JInt 2)])
             = Inr \<lparr>gi_name = ''Beta'', gi_appid = ''2'', gi_img = JNull\<rparr>"
    by code_simp
  show ?thesis by (simp add: games0_def 1 2 info0_def)
qed

theorem games_cycle_witness:
  "titles (cycle_posts monitor0 (snd (process_games_new_updated env_ok monitor0)))
     = [(1, game_title ''Beta''), (2, game_title ''Alpha'')]"
proof -
  have f: "fetch_games env_ok monitor0 = (games0, monitor0)" by code_simp
  have ne: "games0 \<noteq> []" by code_simp
  have n: "channel_id_new monitor0 = Some 1 \<and> (1::int) \<noteq> 0" by code_simp
  have u: "channel_id_update monitor0 = Some 2 \<and> (2::int) \<noteq> 0" by code_simp
  have l1: "sorted_list_of_set ({''Beta'', ''Alpha''} - seen_new monitor0) = [''Beta'']" by code_simp
  have l2: "sorted_list_of_set ({''Beta'', ''Alpha''} - seen_update monitor0
              - ({''Beta'', ''Alpha''} - seen_new monitor0)) = [''Alpha'']" by code_simp
  note t = games_cycle_announces_sorted_diffs[OF f ne scan0]
  from t have a: "cycle_posts monitor0 (snd (process_games_new_updated env_ok monitor0))
                    = new_feed monitor0 {''Beta'', ''Alpha''} info0
                      @ updated_feed monitor0 {''Beta'', ''Alpha''} info0"
    by blast
  from t n have b: "titles (new_feed monitor0 {''Beta'', ''Alpha''} info0)
                      = map (\<lambda>k. (1, game_title k))
                          (sorted_list_of_set ({''Beta'', ''Alpha''} - seen_new monitor0))"
    by blast
  from t u have c: "titles (updated_feed monitor0 {''Beta'', ''Alpha''} info0)
                      = map (\<lambda>k. (2, game_title k))
                          (sorted_list_of_set ({''Beta'', ''Alpha''} - seen_update monitor0
                             - ({''Beta'', ''Alpha''} - seen_new monitor0)))"
    by blast
  have "titles (xs @ ys) = titles xs @ titles ys" for xs ys
    by (simp add: titles_def)
  then show ?thesis
    by (simp only: a b c l1 l2) simp
qed

lemma channel_set_iff: "channel_set ch \<longleftrightarrow> (\<exists>c. ch = Some c \<and> c \<noteq> 0)"
  by (cases ch) (simp_all add: channel_set_def)

lemma game_title_inj: "game_title k = game_title k' \<Longrightarrow> k = k'"
  by (simp add: game_title_def)

lemma updated_feed_skips_new:
  assumes sc: "scan_games games {} Map.empty = Inr (K, M)" and kn: "k \<in> K - seen_new s"
  shows "(c, game_title k) \<notin> set (titles (updated_feed s K M))"
proof (cases "channel_set (channel_id_update s)")
  case False
  then show ?thesis by (simp add: updated_feed_def titles_def)
next
  case True
  then obtain c' where c': "channel_id_update s = Some c'" "c' \<noteq> 0"
    by (auto simp: channel_set_iff)
  note ok = scan_games_ok[OF sc]
  have sub: "set (sorted_list_of_set ((K - seen_update s) - (K - seen_new s))) \<subseteq> dom M"
    using ok by auto
  have "titles (updated_feed s K M)
          = map (\<lambda>k. (c', game_title k)) (sorted_list_of_set ((K - seen_update s) - (K - seen_new s)))"
    using c' ok(4) sub by (simp add: updated_feed_def titles_alerts del: set_sorted_list_of_set)
  then show ?thesis
    using kn ok(3) by (auto dest: game_title_inj)
qed

lemma new_feed_has_new:
  assumes sc: "scan_games games {} Map.empty = Inr (K, M)" and kn: "k \<in> K - seen_new s"
    and c: "channel_id_new s = Some c" "c \<noteq> 0"
  shows "(c, game_title k) \<in> set (titles (new_feed s K M))"
proof -
  note ok = scan_games_ok[OF sc]
  have "titles (new_feed s K M) = map (\<lambda>k. (c, game_title k)) (sorted_list_of_set (K - seen_new s))"
    using c ok by (simp add: new_feed_def titles_alerts)
  then show ?thesis using kn ok(3) by simp
qed

lemma process_games_written:
  assumes f: "fetch_games env s = (games, s1)" and ne: "games \<noteq> []"
    and sc: "scan_games games {} Map.empty = Inr (K, M)"
    and d: "K - seen_new s \<noteq> {} \<or> K - seen_update s \<noteq> {}" and w: "write_reply env = None"
  shows "disk (snd (process_games_new_updated env s))
           = disk s @ [Written (config_of (snd (process_games_new_updated env s)))]"
  using process_games_disk(1)[OF f ne sc] d w by (simp del: Diff_eq_empty_iff)

text \<open>
  C2, as stated, fails. A snapshot with the keys Alpha and Beta, Alpha already in
  \<open>seen_new\<close>, nothing in \<open>seen_update\<close>, no channel for NEW and channel 2 for UPDATED: Beta
  is in both computed diffs; the cycle hands one alert to \<^verbatim>\<open>safe_send\<close>, the one of Alpha on
  the UPDATED feed, so Beta is announced on no feed, the NEW feed included; and after the
  cycle Beta is in \<open>seen_new\<close> and in \<open>seen_update\<close>.
\<close>

theorem new_key_without_channel_is_announced_nowhere:
  "fst (fetch_games env_ok monitor1) = games0 \<and>
   channel_id_new monitor1 = None \<and> channel_id_update monitor1 = Some 2 \<and>
   ''Beta'' \<in> set (snapshot_keys games0) - seen_new monitor1 \<and>
   ''Beta'' \<in> set (snapshot_keys games0) - seen_update monitor1 \<and>
   cycle_posts monitor1 (snd (process_games_new_updated env_ok monitor1))
     = [(2, make_game_embed ''Alpha'' ''1'' JNull ''UPDATED'')] \<and>
   ''Beta'' \<in> seen_new (snd (process_games_new_updated env_ok monitor1)) \<and>
   ''Beta'' \<in> seen_update (snd (process_games_new_updated env_ok monitor1))"
  by code_simp

text \<open>
  C2, amended. In a cycle of the games pipeline (a snapshot that is not empty and whose
  scan raises nothing), a key \<open>k\<close> that is in both computed diffs, the keys not in
  \<open>seen_new\<close> and the keys not in \<open>seen_update\<close>: no UPDATED alert of the cycle is about \<open>k\<close>,
  whatever the channel; with a channel for NEW, a NEW alert of the cycle is about \<open>k\<close>;
  without a channel for NEW, no alert of the cycle is about \<open>k\<close>; after the cycle \<open>k\<close> is in
  \<open>seen_new\<close> and in \<open>seen_update\<close>; and when the write succeeds, the cycle ends with one
  \<^verbatim>\<open>save_config\<close>, which writes the monitor as it then is, \<open>k\<close> in both sets.
\<close>

theorem new_key_is_not_announced_as_updated:
  assumes f: "fetch_games env s = (games, s1)" and ne: "games \<noteq> []"
    and sc: "scan_games games {} Map.empty = Inr (K, M)"
    and kn: "k \<in> K - seen_new s" and ku: "k \<in> K - seen_update s"
  shows "cycle_posts s (snd (process_games_new_updated env s)) = new_feed s K M @ updated_feed s K M \<and>
         (\<forall>c. (c, game_title k) \<notin> set (titles (updated_feed s K M))) \<and>
         (\<forall>c. channel_id_new s = Some c \<and> c \<noteq> 0 \<longrightarrow>
              (c, game_title k) \<in> set (titles (new_feed s K M))) \<and>
         (\<not> channel_set (channel_id_new s) \<longrightarrow>
              (\<forall>c. (c, game_title k)
                     \<notin> set (titles (cycle_posts s (snd (process_games_new_updated env s)))))) \<and>
         k \<in> seen_new (snd (process_games_new_updated env s)) \<and>
         k \<in> seen_update (snd (process_games_new_updated env s)) \<and>
         (write_reply env = None \<longrightarrow>
            disk (snd (process_games_new_updated env s))
              = disk s @ [Written (config_of (snd (process_games_new_updated env s)))] \<and>
            k \<in> cf_seen_new (config_of (snd (process_games_new_updated env s))) \<and>
            k \<in> cf_seen_update (config_of (snd (process_games_new_updated env s))))"
proof -
  let ?s' = "snd (process_games_new_updated env s)"
  have a: "cycle_posts s ?s' = new_feed s K M @ updated_feed s K M"
    using process_games_posts[OF f ne sc] by (simp add: games_posted_feeds)
  have b: "\<forall>c. (c, game_title k) \<notin> set (titles (updated_feed s K M))"
    using updated_feed_skips_new[OF sc kn] by blast
  have c: "\<forall>c. channel_id_new s = Some c \<and> c \<noteq> 0 \<longrightarrow>
              (c, game_title k) \<in> set (titles (new_feed s K M))"
    using new_feed_has_new[OF sc kn] by blast
  have n: "\<forall>c. (c, game_title k) \<notin> set (titles (cycle_posts s ?s'))"
    if "\<not> channel_set (channel_id_new s)"
  proof -
    from that have "new_feed s K M = []" by (simp add: new_feed_def)
    with a have "cycle_posts s ?s' = updated_feed s K M" by simp
    with b show ?thesis by simp
  qed
  have d: "k \<in> seen_new ?s'" "k \<in> seen_update ?s'"
    using kn process_games_state(1,2)[OF f ne sc] by simp_all
  have e: "disk ?s' = disk s @ [Written (config_of ?s')]" if "write_reply env = None"
    using process_games_written[OF f ne sc _ that] kn by blast
  have g: "k \<in> cf_seen_new (config_of ?s')" "k \<in> cf_seen_update (config_of ?s')"
    using d by (simp_all add: config_of_def)
  show ?thesis
  proof (intro conjI)
    show "cycle_posts s ?s' = new_feed s K M @ updated_feed s K M" by (rule a)
    show "\<forall>c. (c, game_title k) \<notin> set (titles (updated_feed s K M))" by (rule b)
    show "\<forall>c. channel_id_new s = Some c \<and> c \<noteq> 0 \<longrightarrow>
              (c, game_title k) \<in> set (titles (new_feed s K M))" by (rule c)
    show "\<not> channel_set (channel_id_new s) \<longrightarrow>
            (\<forall>c. (c, game_title k) \<notin> set (titles (cycle_posts s ?s')))"
      using n by (rule impI)
    show "k \<in> seen_new ?s'" by (rule d(1))
    show "k \<in> seen_update ?s'" by (rule d(2))
    show "write_reply env = None \<longrightarrow>
            disk ?s' = disk s @ [Written (config_of ?s')] \<and>
            k \<in> cf_seen_new (config_of ?s') \<and> k \<in> cf_seen_update (config_of ?s')"
      using e g by simp
  qed
qed

theorem new_key_witness:
  "(1, game_title ''Beta'') \<in> set (titles (cycle_posts monitor0 (snd (process_games_new_updated env_ok monitor0)))) \<and>
   (2, game_title ''Beta'') \<notin> set (titles (cycle_posts monitor0 (snd (process_games_new_updated env_ok monitor0)))) \<and>
   ''Beta'' \<in> seen_new (snd (process_games_new_updated env_ok monitor0)) \<and>
   ''Beta'' \<in> seen_update (snd (process_games_new_updated env_ok monitor0))"
proof -
  have f: "fetch_games env_ok monitor0 = (games0, monitor0)" by code_simp
  have ne: "games0 \<noteq> []" by code_simp
  have kn: "''Beta'' \<in> {''Beta'', ''Alpha''} - seen_new monitor0" by code_simp
  have ku: "''Beta'' \<in> {''Beta'', ''Alpha''} - seen_update monitor0" by code_simp
  note t = new_key_is_not_announced_as_updated[OF f ne scan0 kn ku]
  have x: "(1, game_title ''Beta'') \<in> set (titles (cycle_posts monitor0 (snd (process_games_new_updated env_ok monitor0))))"
    by code_simp
  have y: "(2, game_title ''Beta'') \<notin> set (titles (cycle_posts monitor0 (snd (process_games_new_updated env_ok monitor0))))"
    by code_simp
  from t x y show ?thesis by blast
qed


lemma fix_alerts_unset [simp]: "\<not> channel_set ch \<Longrightarrow> fix_alerts ch m ks = []"
  by (auto simp: fix_alerts_def channel_set_def split: option.splits)

lemma fix_alerts_Nil [simp]: "fix_alerts ch m [] = []"
  by (auto simp: fix_alerts_def List.map_filter_simps split: option.splits)








lemma fix_of_block_None_iff:
  "fix_of_block b = None \<longleftrightarrow>
     (\<forall>n. name_m b = Some n \<longrightarrow> py_strip n = []) \<and> (\<forall>h. href_m b = Some h \<longrightarrow> h = [])"
  by (cases "name_m b"; cases "href_m b") (auto simp: fix_of_block_def Let_def)

lemma fix_of_block_titled:
  assumes "name_m b = Some n" and "py_strip n \<noteq> []"
  shows "fix_of_block b =
           Some \<lparr>fx_title = py_strip (strip_ext (py_strip n)),
                 fx_download = (case href_m b of
                                  None \<Rightarrow> []
                                | Some h \<Rightarrow> if starts_with ''/'' h
                                            then ''https://generator.ryuu.lol'' @ h else h),
                 fx_size = (case size_m b of None \<Rightarrow> [] | Some z \<Rightarrow> py_strip z)\<rparr>"
  using assms by (cases "href_m b"; cases "size_m b") (simp_all add: fix_of_block_def Let_def)

lemma fix_of_block_linked:
  assumes "\<forall>n. name_m b = Some n \<longrightarrow> py_strip n = []" and "href_m b = Some h" and "h \<noteq> []"
  shows "fix_of_block b =
           Some \<lparr>fx_title = strip_ext (replace_pct20 (last_segment (py_rstrip (\<lambda>c. c = CHR ''/'') h))),
                 fx_download = (if starts_with ''/'' h then ''https://generator.ryuu.lol'' @ h else h),
                 fx_size = (case size_m b of None \<Rightarrow> [] | Some z \<Rightarrow> py_strip z)\<rparr>"
  using assms by (cases "name_m b"; cases "size_m b") (simp_all add: fix_of_block_def Let_def)

lemma map_filter_skip:
  "f b = None \<Longrightarrow> List.map_filter f (xs @ b # ys) = List.map_filter f (xs @ ys)"
  by (simp add: List.map_filter_def)

lemma dedupe_subset: "set (dedupe xs seen) \<subseteq> set xs"
  by (induction xs arbitrary: seen) auto

text \<open>
  C8, as stated, fails. It names the title and the link as the required fields of a
  block, so a block that lacks one of them would be skipped. A block with a \<^verbatim>\<open>file-name\<close>
  div and no \<^verbatim>\<open>href\<close> yields an item, its download the empty string; a block with an
  \<^verbatim>\<open>href\<close> and no \<^verbatim>\<open>file-name\<close> div yields an item, its title taken from the link; a page
  of these two blocks gives two fixes.
\<close>

theorem block_with_title_or_link_yields_item:
  "name_m block_title_only = Some ''Fix.zip'' \<and> href_m block_title_only = None \<and>
   fix_of_block block_title_only = Some \<lparr>fx_title = ''Fix'', fx_download = [], fx_size = []\<rparr> \<and>
   name_m block_link_only = None \<and> href_m block_link_only = Some ''/files/My%20Fix.rar'' \<and>
   fix_of_block block_link_only
     = Some \<lparr>fx_title = ''My Fix'',
             fx_download = ''https://generator.ryuu.lol/files/My%20Fix.rar'', fx_size = []\<rparr> \<and>
   fixes_reply env_partial = Some [block_title_only, block_link_only] \<and>
   fetch_fixes env_partial
     = [\<lparr>fx_title = ''Fix'', fx_download = [], fx_size = []\<rparr>,
        \<lparr>fx_title = ''My Fix'',
          fx_download = ''https://generator.ryuu.lol/files/My%20Fix.rar'', fx_size = []\<rparr>]"
  by code_simp

text \<open>
  C8, amended. A block of the fixes page yields no item exactly when it has neither a
  title (a \<^verbatim>\<open>file-name\<close> div whose stripped text is not empty) nor a link (an \<^verbatim>\<open>href\<close>); such a
  block among the anchors is passed over, and \<^verbatim>\<open>fetch_fixes\<close> returns what it returns
  without it. A block with a title and no link yields an item, its download the empty
  string. A block with a link and no title yields an item, its title the last segment of
  the link, \<^verbatim>\<open>%20\<close> replaced by a space and the archive extension removed. A block with a
  title and no \<^verbatim>\<open>file-size\<close> div yields an item, its size the empty string, and no error;
  alone on the page, it is the result of \<^verbatim>\<open>fetch_fixes\<close>.
\<close>

theorem block_is_skipped_only_without_title_and_link:
  "(fix_of_block b = None \<longleftrightarrow>
      (\<forall>n. name_m b = Some n \<longrightarrow> py_strip n = []) \<and> (\<forall>h. href_m b = Some h \<longrightarrow> h = [])) \<and>
   (fixes_reply env = Some (xs @ b # ys) \<and>
    (\<forall>n. name_m b = Some n \<longrightarrow> py_strip n = []) \<and> (\<forall>h. href_m b = Some h \<longrightarrow> h = []) \<longrightarrow>
      fetch_fixes env = dedupe (List.map_filter fix_of_block (xs @ ys)) {}) \<and>
   (name_m b = Some n \<and> py_strip n \<noteq> [] \<and> href_m b = None \<longrightarrow>
      fix_of_block b = Some \<lparr>fx_title = py_strip (strip_ext (py_strip n)), fx_download = [],
                              fx_size = (case size_m b of None \<Rightarrow> [] | Some z \<Rightarrow> py_strip z)\<rparr>) \<and>
   ((\<forall>n. name_m b = Some n \<longrightarrow> py_strip n = []) \<and> href_m b = Some h \<and> h \<noteq> [] \<longrightarrow>
      fix_of_block b
        = Some \<lparr>fx_title = strip_ext (replace_pct20 (last_segment (py_rstrip (\<lambda>c. c = CHR ''/'') h))),
                fx_download = (if starts_with ''/'' h then ''https://generator.ryuu.lol'' @ h else h),
                fx_size = (case size_m b of None \<Rightarrow> [] | Some z \<Rightarrow> py_strip z)\<rparr>) \<and>
   (name_m b = Some n \<and> py_strip n \<noteq> [] \<and> size_m b = None \<longrightarrow>
      (\<exists>d. fix_of_block b = Some \<lparr>fx_title = py_strip (strip_ext (py_strip n)),
                                    fx_download = d, fx_size = []\<rparr>)) \<and>
   (fixes_reply env = Some [b] \<and> name_m b = Some n \<and> py_strip n \<noteq> [] \<and> size_m b = None \<longrightarrow>
      map fx_size (fetch_fixes env) = [[]])"
proof (intro conjI impI)
  show "fix_of_block b = None \<longleftrightarrow>
      (\<forall>n. name_m b = Some n \<longrightarrow> py_strip n = []) \<and> (\<forall>h. href_m b = Some h \<longrightarrow> h = [])"
    by (rule fix_of_block_None_iff)
next
  assume a: "fixes_reply env = Some (xs @ b # ys) \<and>
    (\<forall>n. name_m b = Some n \<longrightarrow> py_strip n = []) \<and> (\<forall>h. href_m b = Some h \<longrightarrow> h = [])"
  then have "fix_of_block b = None" by (simp add: fix_of_block_None_iff)
  with a show "fetch_fixes env = dedupe (List.map_filter fix_of_block (xs @ ys)) {}"
    by (simp add: fetch_fixes_def map_filter_skip)
next
  assume a: "name_m b = Some n \<and> py_strip n \<noteq> [] \<and> href_m b = None"
  then show "fix_of_block b
      = Some \<lparr>fx_title = py_strip (strip_ext (py_strip n)), fx_download = [],
              fx_size = (case size_m b of None \<Rightarrow> [] | Some z \<Rightarrow> py_strip z)\<rparr>"
    using fix_of_block_titled[of b n] by simp
next
  assume a: "(\<forall>n. name_m b = Some n \<longrightarrow> py_strip n = []) \<and> href_m b = Some h \<and> h \<noteq> []"
  then show "fix_of_block b
      = Some \<lparr>fx_title = strip_ext (replace_pct20 (last_segment (py_rstrip (\<lambda>c. c = CHR ''/'') h))),
              fx_download = (if starts_with ''/'' h then ''https://generator.ryuu.lol'' @ h else h),
              fx_size = (case size_m b of None \<Rightarrow> [] | Some z \<Rightarrow> py_strip z)\<rparr>"
    using fix_of_block_linked[of b h] by blast
next
  assume a: "name_m b = Some n \<and> py_strip n \<noteq> [] \<and> size_m b = None"
  then show "\<exists>d. fix_of_block b = Some \<lparr>fx_title = py_strip (strip_ext (py_strip n)),
                                    fx_download = d, fx_size = []\<rparr>"
    using fix_of_block_titled[of b n] by simp
next
  assume a: "fixes_reply env = Some [b] \<and> name_m b = Some n \<and> py_strip n \<noteq> [] \<and> size_m b = None"
  then show "map fx_size (fetch_fixes env) = [[]]"
    using fix_of_block_titled[of b n] by (simp add: fetch_fixes_def List.map_filter_simps)
qed

theorem block_witness:
  "fix_of_block block_bare = None \<and>
   fix_of_block block_blank = None \<and>
   fix_of_block block_no_size
     = Some \<lparr>fx_title = ''Patch1'', fx_download = ''https://generator.ryuu.lol/files/Patch1.zip'',
             fx_size = []\<rparr> \<and>
   fix_of_block block_title_only = Some \<lparr>fx_title = ''Fix'', fx_download = [], fx_size = []\<rparr> \<and>
   fix_of_block block_link_only
     = Some \<lparr>fx_title = ''My Fix'',
             fx_download = ''https://generator.ryuu.lol/files/My%20Fix.rar'', fx_size = []\<rparr> \<and>
   fetch_fixes env_page
     = [\<lparr>fx_title = ''Patch1'', fx_download = ''https://generator.ryuu.lol/files/Patch1.zip'',
         fx_size = []\<rparr>]"
proof -
  have n: "\<forall>n. name_m block_bare = Some n \<longrightarrow> py_strip n = []"
    and h: "\<forall>h. href_m block_bare = Some h \<longrightarrow> h = []"
    by (simp_all add: block_bare_def)
  have s: "py_strip [CHR 0xC2, CHR 0xA0] = []" by code_simp
  have nb: "\<forall>n. name_m block_blank = Some n \<longrightarrow> py_strip n = []"
    and hb: "\<forall>h. href_m block_blank = Some h \<longrightarrow> h = []"
    by (simp_all add: block_blank_def s)
  have r: "fixes_reply env_page = Some ([] @ block_bare # [block_no_size])" by code_simp
  note t = block_is_skipped_only_without_title_and_link[of block_bare env_page "[]" "[block_no_size]"]
  from t n h have 1: "fix_of_block block_bare = None" by blast
  have 2: "fetch_fixes env_page = dedupe (List.map_filter fix_of_block ([] @ [block_no_size])) {}"
    by (rule t[THEN conjunct2, THEN conjunct1, rule_format]) (intro conjI r n h)
  have 3: "fix_of_block block_no_size
     = Some \<lparr>fx_title = ''Patch1'', fx_download = ''https://generator.ryuu.lol/files/Patch1.zip'',
             fx_size = []\<rparr>" by code_simp
  from block_is_skipped_only_without_title_and_link[of block_blank env_page "[]" "[]"] nb hb
  have 4: "fix_of_block block_blank = None" by blast
  have tn: "name_m block_title_only = Some ''Fix.zip'' \<and> py_strip ''Fix.zip'' \<noteq> [] \<and>
            href_m block_title_only = None"
    by code_simp
  have ts: "size_m block_title_only = None" by code_simp
  have tt: "py_strip (strip_ext (py_strip ''Fix.zip'')) = ''Fix''" by code_simp
  have 5: "fix_of_block block_title_only = Some \<lparr>fx_title = ''Fix'', fx_download = [], fx_size = []\<rparr>"
    using block_is_skipped_only_without_title_and_link
            [of block_title_only env_page "[]" "[]" "''Fix.zip''",
             THEN conjunct2, THEN conjunct2, THEN conjunct1, rule_format, OF tn]
    by (simp add: ts tt)
  have ln: "(\<forall>n. name_m block_link_only = Some n \<longrightarrow> py_strip n = []) \<and>
            href_m block_link_only = Some ''/files/My%20Fix.rar'' \<and> ''/files/My%20Fix.rar'' \<noteq> []"
    by (simp add: block_link_only_def)
  have ls: "size_m block_link_only = None" by code_simp
  have lt: "strip_ext (replace_pct20 (last_segment (py_rstrip (\<lambda>c. c = CHR ''/'') ''/files/My%20Fix.rar'')))
              = ''My Fix''"
    by code_simp
  have ld: "starts_with ''/'' ''/files/My%20Fix.rar''" by code_simp
  have 6: "fix_of_block block_link_only
     = Some \<lparr>fx_title = ''My Fix'',
             fx_download = ''https://generator.ryuu.lol/files/My%20Fix.rar'', fx_size = []\<rparr>"
    using block_is_skipped_only_without_title_and_link
            [of block_link_only env_page "[]" "[]" _ "''/files/My%20Fix.rar''",
             THEN conjunct2, THEN conjunct2, THEN conjunct2, THEN conjunct1, rule_format, OF ln]
    by (simp add: ls lt ld)
  show ?thesis by (simp add: 1 2 3 4 5 6 List.map_filter_simps)
qed

lemma format_games_length: "format_games games = Inr formatted \<Longrightarrow> length formatted = length games"
  by (induction games arbitrary: formatted) (auto split: sum.splits)

lemma div80: "0 < n \<Longrightarrow> Suc ((n - 80 + 79) div 80) = (n + 79) div 80" for n :: nat
proof (cases "80 \<le> n")
  case True
  then obtain m where m: "n = m + 80" by (metis le_add_diff_inverse2)
  show ?thesis unfolding m by simp
next
  case False
  assume "0 < n"
  with False have a: "n - 80 = 0" and b: "(n + 79) div 80 = 1" by simp_all
  show ?thesis by (simp only: a b)
qed

lemma length_chunks80: "length (chunks80 xs) = (length xs + 79) div 80"
proof (induction xs rule: chunks80.induct)
  case (1 xs)
  show ?case
  proof (cases "xs = []")
    case True
    then have "chunks80 xs = []" by (subst chunks80.simps) simp
    with True show ?thesis by simp
  next
    case False
    then have n: "0 < length xs" by simp
    have "chunks80 xs = take 80 xs # chunks80 (drop 80 xs)"
      using False by (subst chunks80.simps) simp
    then have "length (chunks80 xs) = Suc ((length xs - 80 + 79) div 80)"
      using 1[OF False] by simp
    with div80[OF n] show ?thesis by simp
  qed
qed

lemma upt_shift: "[i ..< i + Suc n] = i # [Suc i ..< Suc i + n]"
  by (simp add: upt_conv_Cons del: upt_Suc)

lemma page_edits_Nil [simp]: "page_edits env i [] = []"
  by (simp add: page_edits_def)

lemma page_edits_Cons:
  "page_edits env i (e # es)
     = (if edit_reply env i = None then [Sleep 2, MessageEdit e] else [Sleep 2])
       @ page_edits env (Suc i) es"
proof -
  have "[i ..< i + length (e # es)] = i # [Suc i ..< Suc i + length es]"
    using upt_shift[of i "length es"] by simp
  then show ?thesis unfolding page_edits_def by simp
qed

lemma edit_failures_Nil [simp]: "edit_failures env i [] = []"
  by (simp add: edit_failures_def)

lemma edit_failures_Cons:
  "edit_failures env i (e # es)
     = (case edit_reply env i of
          None \<Rightarrow> []
        | Some m \<Rightarrow> [''[ERROR] Failed to edit message: '' @ m])
       @ edit_failures env (Suc i) es"
proof -
  have "[i ..< i + length (e # es)] = i # [Suc i ..< Suc i + length es]"
    using upt_shift[of i "length es"] by simp
  then show ?thesis unfolding edit_failures_def by simp
qed

lemma fst_edit_pages: "fst (edit_pages env i es s) = page_edits env i es"
proof (induction es arbitrary: i s)
  case Nil
  show ?case by simp
next
  case (Cons e es)
  show ?case
    by (cases "edit_reply env i") (simp_all add: page_edits_Cons case_prod_beta Cons.IH)
qed

lemma printed_edit_pages:
  "printed (snd (edit_pages env i es s)) = printed s @ edit_failures env i es"
proof (induction es arbitrary: i s)
  case Nil
  show ?case by simp
next
  case (Cons e es)
  show ?case
    by (cases "edit_reply env i")
       (simp_all add: edit_failures_Cons case_prod_beta Cons.IH print_def)
qed

lemma page_edits_all:
  "\<forall>j. i \<le> j \<and> j < i + length es \<longrightarrow> edit_reply env j = None \<Longrightarrow>
     page_edits env i es = concat (map (\<lambda>e. [Sleep 2, MessageEdit e]) es)"
proof (induction es arbitrary: i)
  case Nil
  show ?case by simp
next
  case (Cons e es)
  have h: "edit_reply env i = None" using Cons.prems by simp
  have "\<forall>j. Suc i \<le> j \<and> j < Suc i + length es \<longrightarrow> edit_reply env j = None"
    using Cons.prems by simp
  from Cons.IH[OF this] show ?case by (simp add: page_edits_Cons h)
qed

lemma no_new_message_in_edits: "filter is_new_message (page_edits env i es) = []"
  by (induction es arbitrary: i) (simp_all add: page_edits_Cons)

lemma length_list_pages:
  "length (list_pages games formatted) = (length formatted + 79) div 80"
  by (simp add: list_pages_def Let_def length_chunks80)

lemma api_error_None [simp]: "api_error r = None \<longleftrightarrow> r = Returns"
  by (cases r) (simp_all add: api_error_def)

lemma api_error_Returns [simp]: "api_error Returns = None"
  by (simp add: api_error_def)

lemma interact_three_returns:
  assumes "\<forall>i<3. r i = Returns"
  shows "interact r 0 [a, b, c] = (None, [a, b, c])"
proof -
  have "r 0 = Returns" "r (Suc 0) = Returns" "r (Suc (Suc 0)) = Returns"
    using assms by simp_all
  then show ?thesis by simp
qed

lemma interact_three_raises:
  assumes "\<exists>i<3. r i \<noteq> Returns"
  shows "\<exists>e rs. interact r 0 [a, b, c] = (Some e, rs) \<and> set rs \<subseteq> {a, b}"
proof -
  from assms have c: "r 0 \<noteq> Returns \<or> r (Suc 0) \<noteq> Returns \<or> r (Suc (Suc 0)) \<noteq> Returns"
    by (auto simp: less_Suc_eq numeral_3_eq_3)
  show ?thesis
  proof (cases "api_error (r 0)")
    case (Some e)
    then show ?thesis by simp
  next
    case None
    note r0 = this
    show ?thesis
    proof (cases "api_error (r (Suc 0))")
      case (Some e)
      with r0 show ?thesis by simp
    next
      case None
      note r1 = this
      show ?thesis
      proof (cases "api_error (r (Suc (Suc 0)))")
        case (Some e)
        with r0 r1 show ?thesis by simp
      next
        case None
        with r0 r1 c show ?thesis by simp
      qed
    qed
  qed
qed

lemma gamelist_unfold:
  assumes f: "fetch_games env s = (games, s1)" and fm: "format_games games = Inr formatted"
    and p: "list_pages games formatted = first # rest"
  shows "gamelist env s =
           (case interact (interaction_reply env) 0 [Defer, FollowupEmbed first, MessageFetch] of
              (Some e, rs) \<Rightarrow> (Some e, rs, if rs = [] then s else s1)
            | (None, rs) \<Rightarrow>
                (None, rs @ fst (edit_pages env 2 rest s1), snd (edit_pages env 2 rest s1)))"
proof -
  have ne: "games \<noteq> []"
  proof
    assume "games = []"
    with fm have "formatted = []" by simp
    then have "chunks80 formatted = []" by (subst chunks80.simps) simp
    with p show False by (simp add: list_pages_def)
  qed
  have g: "gamelist env s =
             (case api_error (interaction_reply env 0) of
                Some e \<Rightarrow> (Some e, [], s)
              | None \<Rightarrow>
                  (case list_pages games formatted of
                     [] \<Rightarrow> (Some (IndexError ''list index out of range''), [Defer], s1)
                   | first # rest \<Rightarrow>
                       (case interact (interaction_reply env) 1 [FollowupEmbed first, MessageFetch] of
                          (Some e, rs) \<Rightarrow> (Some e, Defer # rs, s1)
                        | (None, rs) \<Rightarrow>
                            (let (es, s) = edit_pages env 2 rest s1
                             in (None, Defer # rs @ es, s)))))"
    unfolding gamelist_def list_pages_def Let_def f using fm ne
    by (simp del: upt_Suc interact.simps split: option.splits)
  show ?thesis
    unfolding g p
    by (cases "api_error (interaction_reply env 0)";
        cases "api_error (interaction_reply env (Suc 0))";
        cases "api_error (interaction_reply env (Suc (Suc 0)))")
       (simp_all add: case_prod_beta)
qed

lemma gamelist_returns:
  assumes f: "fetch_games env s = (games, s1)" and fm: "format_games games = Inr formatted"
    and p: "list_pages games formatted = first # rest"
    and r: "\<forall>i<3. interaction_reply env i = Returns"
  shows "gamelist env s =
           (None, [Defer, FollowupEmbed first, MessageFetch] @ page_edits env 2 rest,
            snd (edit_pages env 2 rest s1))"
  unfolding gamelist_unfold[OF f fm p] interact_three_returns[OF r]
  by (simp add: fst_edit_pages)

lemma gamelist_raises:
  assumes f: "fetch_games env s = (games, s1)" and fm: "format_games games = Inr formatted"
    and p: "list_pages games formatted = first # rest"
    and r: "\<exists>i<3. interaction_reply env i \<noteq> Returns"
  shows "(fst (gamelist env s), fst (snd (gamelist env s)))
           = interact (interaction_reply env) 0 [Defer, FollowupEmbed first, MessageFetch] \<and>
         fst (gamelist env s) \<noteq> None \<and>
         set (fst (snd (gamelist env s))) \<subseteq> {Defer, FollowupEmbed first}"
proof -
  from interact_three_raises[OF r, of Defer "FollowupEmbed first" MessageFetch]
  obtain e rs where
    i: "interact (interaction_reply env) 0 [Defer, FollowupEmbed first, MessageFetch] = (Some e, rs)"
    and s: "set rs \<subseteq> {Defer, FollowupEmbed first}"
    by blast
  have "gamelist env s = (Some e, rs, if rs = [] then s else s1)"
    unfolding gamelist_unfold[OF f fm p] i by simp
  with i s show ?thesis by simp
qed

lemma chunks81: "chunks80 (replicate 81 x) = [replicate 80 x, [x]]"
proof -
  have a: "chunks80 (replicate 81 x) = replicate 80 x # chunks80 [x]"
    by (subst chunks80.simps) simp
  have b: "chunks80 [x] = [[x]]"
    by (subst chunks80.simps, simp, subst chunks80.simps, simp)
  show ?thesis by (simp only: a b)
qed

lemma pages81:
  "list_pages games81 (replicate 81 line7)
     = [page_embed 81 2 (1, replicate 80 line7), page_embed 81 2 (2, [line7])]"
proof -
  have u: "[Suc 0 ..< 3] = [Suc 0, 2]" by code_simp
  have l: "length games81 = 81" by (simp add: games81_def)
  have n: "length [replicate 80 line7, [line7]] = 2" by simp
  show ?thesis
    unfolding list_pages_def Let_def chunks81 l n by (simp add: u)
qed

text \<open>
  C9, as stated, fails. A snapshot of 81 games fills two pages. When \<^verbatim>\<open>msg.fetch\<close> raises
  (the message is gone), the handler has sent page 1 as a new message and ends with the
  exception: page 2 is never delivered. When \<^verbatim>\<open>msg.edit\<close> raises at page 2, the exception
  is printed and page 2 is not delivered either: after the sleep nothing follows.
\<close>

theorem gamelist_may_stop_at_page_one:
  "fst (fetch_games env81_lost monitor0) = games81 \<and>
   format_games games81 = Inr (replicate 81 line7) \<and>
   list_pages games81 (replicate 81 line7)
     = [page_embed 81 2 (1, replicate 80 line7), page_embed 81 2 (2, [line7])] \<and>
   gamelist env81_lost monitor0
     = (Some (HTTPException ''404 Not Found (error code: 10008): Unknown Message''),
        [Defer, FollowupEmbed (page_embed 81 2 (1, replicate 80 line7))], monitor0) \<and>
   gamelist env81_edit monitor0
     = (None,
        [Defer, FollowupEmbed (page_embed 81 2 (1, replicate 80 line7)), MessageFetch, Sleep 2],
        monitor0\<lparr>printed := [''[ERROR] Failed to edit message: 503 Service Unavailable'']\<rparr>)"
proof -
  have f1: "fetch_games env81_lost monitor0 = (games81, monitor0)" by code_simp
  have f2: "fetch_games env81_edit monitor0 = (games81, monitor0)" by code_simp
  have fm: "format_games games81 = Inr (replicate 81 line7)" by code_simp
  have i: "interact (interaction_reply env81_lost) 0
             [Defer, FollowupEmbed (page_embed 81 2 (1, replicate 80 line7)), MessageFetch]
           = (Some (HTTPException ''404 Not Found (error code: 10008): Unknown Message''),
              [Defer, FollowupEmbed (page_embed 81 2 (1, replicate 80 line7))])"
    by (simp add: env81_lost_def api_error_def)
  have a: "gamelist env81_lost monitor0
     = (Some (HTTPException ''404 Not Found (error code: 10008): Unknown Message''),
        [Defer, FollowupEmbed (page_embed 81 2 (1, replicate 80 line7))], monitor0)"
    unfolding gamelist_unfold[OF f1 fm pages81] i by simp
  have r: "\<forall>i<3. interaction_reply env81_edit i = Returns"
    by (simp add: env81_edit_def env81_def env_ok_def)
  have e: "edit_reply env81_edit 2 = Some ''503 Service Unavailable''"
    by (simp add: env81_edit_def)
  have p: "printed monitor0 = []" by (simp add: monitor0_def)
  have b: "gamelist env81_edit monitor0
     = (None,
        [Defer, FollowupEmbed (page_embed 81 2 (1, replicate 80 line7)), MessageFetch, Sleep 2],
        monitor0\<lparr>printed := [''[ERROR] Failed to edit message: 503 Service Unavailable'']\<rparr>)"
    unfolding gamelist_returns[OF f2 fm pages81 r]
    by (simp add: page_edits_Cons e print_def p)
  show ?thesis
    using f1 fm pages81 a b by simp
qed

text \<open>
  C9, amended. When \<^verbatim>\<open>gamelist\<close> has more than one page to show (the games are fetched and
  formatted without an exception, and there are more than 80 of them: a page holds 80
  lines) and its three calls outside a \<^verbatim>\<open>try\<close> return (\<^verbatim>\<open>defer\<close>, \<^verbatim>\<open>followup.send\<close> and
  \<^verbatim>\<open>msg.fetch\<close>), the handler defers, sends one new message, which holds the first page,
  fetches it, and then, for each further page in order, sleeps 2 seconds and edits that
  message to the page; no other call puts a new message into the channel; an edit that
  raises delivers nothing: its exception is printed and the loop goes on to the next page.
  When every edit returns, every further page is delivered. When one of the three calls
  raises, the handler ends there with the exception, after the calls that returned, and
  no page is delivered by an edit.
\<close>

theorem gamelist_sends_once_then_edits:
  assumes f: "fetch_games env s = (games, s1)" and fm: "format_games games = Inr formatted"
    and p: "1 < length (list_pages games formatted)"
  shows "\<exists>first rest.
           list_pages games formatted = first # rest \<and> rest \<noteq> [] \<and>
           length (list_pages games formatted) = (length games + 79) div 80 \<and>
           ((\<forall>i<3. interaction_reply env i = Returns) \<longrightarrow>
              fst (gamelist env s) = None \<and>
              fst (snd (gamelist env s))
                = [Defer, FollowupEmbed first, MessageFetch] @ page_edits env 2 rest \<and>
              filter is_new_message (fst (snd (gamelist env s))) = [FollowupEmbed first] \<and>
              printed (snd (snd (gamelist env s))) = printed s1 @ edit_failures env 2 rest) \<and>
           ((\<forall>i<3. interaction_reply env i = Returns) \<and>
            (\<forall>j. 2 \<le> j \<and> j < 2 + length rest \<longrightarrow> edit_reply env j = None) \<longrightarrow>
              fst (snd (gamelist env s))
                = [Defer, FollowupEmbed first, MessageFetch]
                  @ concat (map (\<lambda>e. [Sleep 2, MessageEdit e]) rest)) \<and>
           ((\<exists>i<3. interaction_reply env i \<noteq> Returns) \<longrightarrow>
              (fst (gamelist env s), fst (snd (gamelist env s)))
                = interact (interaction_reply env) 0 [Defer, FollowupEmbed first, MessageFetch] \<and>
              fst (gamelist env s) \<noteq> None \<and>
              set (fst (snd (gamelist env s))) \<subseteq> {Defer, FollowupEmbed first})"
proof -
  from p obtain first rest where fr: "list_pages games formatted = first # rest" "rest \<noteq> []"
    by (cases "list_pages games formatted") auto
  have l: "length (list_pages games formatted) = (length games + 79) div 80"
    by (simp add: length_list_pages format_games_length[OF fm])
  have a: "fst (gamelist env s) = None \<and>
           fst (snd (gamelist env s))
             = [Defer, FollowupEmbed first, MessageFetch] @ page_edits env 2 rest \<and>
           filter is_new_message (fst (snd (gamelist env s))) = [FollowupEmbed first] \<and>
           printed (snd (snd (gamelist env s))) = printed s1 @ edit_failures env 2 rest"
    if "\<forall>i<3. interaction_reply env i = Returns"
    by (simp add: gamelist_returns[OF f fm fr(1) that] no_new_message_in_edits printed_edit_pages)
  have b: "fst (snd (gamelist env s))
             = [Defer, FollowupEmbed first, MessageFetch]
               @ concat (map (\<lambda>e. [Sleep 2, MessageEdit e]) rest)"
    if "(\<forall>i<3. interaction_reply env i = Returns) \<and>
        (\<forall>j. 2 \<le> j \<and> j < 2 + length rest \<longrightarrow> edit_reply env j = None)"
  proof -
    from that have r: "\<forall>i<3. interaction_reply env i = Returns"
      and e: "\<forall>j. 2 \<le> j \<and> j < 2 + length rest \<longrightarrow> edit_reply env j = None"
      by blast+
    show ?thesis
      by (simp add: gamelist_returns[OF f fm fr(1) r] page_edits_all[OF e])
  qed
  have c: "(fst (gamelist env s), fst (snd (gamelist env s)))
             = interact (interaction_reply env) 0 [Defer, FollowupEmbed first, MessageFetch] \<and>
           fst (gamelist env s) \<noteq> None \<and>
           set (fst (snd (gamelist env s))) \<subseteq> {Defer, FollowupEmbed first}"
    if "\<exists>i<3. interaction_reply env i \<noteq> Returns"
    by (rule gamelist_raises[OF f fm fr(1) that])
  show ?thesis
  proof (rule exI[of _ first], rule exI[of _ rest], intro conjI)
    show "list_pages games formatted = first # rest" by (rule fr(1))
    show "rest \<noteq> []" by (rule fr(2))
    show "length (list_pages games formatted) = (length games + 79) div 80" by (rule l)
    show "(\<forall>i<3. interaction_reply env i = Returns) \<longrightarrow>
            fst (gamelist env s) = None \<and>
            fst (snd (gamelist env s))
              = [Defer, FollowupEmbed first, MessageFetch] @ page_edits env 2 rest \<and>
            filter is_new_message (fst (snd (gamelist env s))) = [FollowupEmbed first] \<and>
            printed (snd (snd (gamelist env s))) = printed s1 @ edit_failures env 2 rest"
      using a by (rule impI)
    show "(\<forall>i<3. interaction_reply env i = Returns) \<and>
          (\<forall>j. 2 \<le> j \<and> j < 2 + length rest \<longrightarrow> edit_reply env j = None) \<longrightarrow>
            fst (snd (gamelist env s))
              = [Defer, FollowupEmbed first, MessageFetch]
                @ concat (map (\<lambda>e. [Sleep 2, MessageEdit e]) rest)"
      using b by (rule impI)
    show "(\<exists>i<3. interaction_reply env i \<noteq> Returns) \<longrightarrow>
            (fst (gamelist env s), fst (snd (gamelist env s)))
              = interact (interaction_reply env) 0 [Defer, FollowupEmbed first, MessageFetch] \<and>
            fst (gamelist env s) \<noteq> None \<and>
            set (fst (snd (gamelist env s))) \<subseteq> {Defer, FollowupEmbed first}"
      using c by (rule impI)
  qed
qed

theorem gamelist_witness:
  "length (filter is_new_message (fst (snd (gamelist env81 monitor0)))) = 1 \<and>
   length (fst (snd (gamelist env81 monitor0))) = 5 \<and>
   printed (snd (snd (gamelist env81 monitor0))) = []"
proof -
  have f: "fetch_games env81 monitor0 = (games81, monitor0)" by code_simp
  have fm: "format_games games81 = Inr (replicate 81 line7)" by code_simp
  have p: "1 < length (list_pages games81 (replicate 81 line7))"
    by (simp add: length_list_pages)
  have l: "length (list_pages games81 (replicate 81 line7)) = 2"
    by (simp add: length_list_pages)
  have r: "\<forall>i<3. interaction_reply env81 i = Returns"
    by (simp add: env81_def env_ok_def)
  have e: "\<forall>j. edit_reply env81 j = None"
    by (simp add: env81_def env_ok_def)
  have m: "printed monitor0 = []" by (simp add: monitor0_def)
  from gamelist_sends_once_then_edits[OF f fm p] r e obtain first rest where
    a: "list_pages games81 (replicate 81 line7) = first # rest"
    and b: "fst (snd (gamelist env81 monitor0))
              = [Defer, FollowupEmbed first, MessageFetch] @ concat (map (\<lambda>e. [Sleep 2, MessageEdit e]) rest)"
    and c: "filter is_new_message (fst (snd (gamelist env81 monitor0))) = [FollowupEmbed first]"
    and d: "printed (snd (snd (gamelist env81 monitor0))) = printed monitor0 @ edit_failures env81 2 rest"
    by blast
  from a l obtain x where x: "rest = [x]" by (cases rest) auto
  have "edit_failures env81 2 [x] = []"
    using e by (simp add: edit_failures_def)
  with b c d x m show ?thesis by simp
qed

lemma interact_append:
  "interact r i (xs @ ys)
     = (case interact r i xs of
          (Some e, rs) \<Rightarrow> (Some e, rs)
        | (None, rs) \<Rightarrow> (case interact r (i + length xs) ys of (e, ts) \<Rightarrow> (e, rs @ ts)))"
  by (induction xs arbitrary: i) (auto split: option.splits prod.splits)

lemma interact_Cons_append:
  assumes "r 0 = Returns" and "interact r (Suc 0) xs = (e, rs)"
  shows "interact r 0 (c # xs @ ys)
           = (case e of
                Some x \<Rightarrow> (Some x, c # rs)
              | None \<Rightarrow>
                  (case interact r (Suc (length xs)) ys of (q, ts) \<Rightarrow> (q, c # rs @ ts)))"
  using assms by (cases e) (simp_all add: interact_append case_prod_beta)

lemma interact_returns:
  "\<forall>j. r j = Returns \<Longrightarrow> interact r i xs = (None, xs)"
  by (induction xs arbitrary: i) (simp_all add: api_error_def)

lemma interact_length:
  "interact r i xs = (None, rs) \<Longrightarrow> rs = xs"
  by (induction xs arbitrary: i rs) (auto split: option.splits prod.splits)

lemma snapshot_keys_Cons:
  "game_entry g = Inr i \<Longrightarrow> snapshot_keys (g # gs) = gi_name i # snapshot_keys gs"
  by (simp add: snapshot_keys_def game_key_def)

lemma scan_games_list_keys:
  "scan_games_list games ks M = Inr (ks', M') \<Longrightarrow>
     ks' = ks @ snapshot_keys games \<and> dom M' = dom M \<union> set (snapshot_keys games)"
proof (induction games arbitrary: ks M)
  case Nil
  then show ?case by (simp add: snapshot_keys_def)
next
  case (Cons g gs)
  show ?case
  proof (cases "game_entry g")
    case (Inl e)
    with Cons.prems show ?thesis by simp
  next
    case (Inr i)
    with Cons.prems have
      "scan_games_list gs (ks @ [gi_name i]) (M(gi_name i \<mapsto> i)) = Inr (ks', M')"
      by simp
    from Cons.IH[OF this] have "ks' = (ks @ [gi_name i]) @ snapshot_keys gs"
      and "dom M' = dom (M(gi_name i \<mapsto> i)) \<union> set (snapshot_keys gs)"
      by blast+
    then show ?thesis
      by (auto simp: snapshot_keys_Cons[OF Inr])
  qed
qed

lemma scan_games_list_names:
  "scan_games_list games ks M = Inr (ks', M') \<Longrightarrow> \<forall>k e. M k = Some e \<longrightarrow> gi_name e = k \<Longrightarrow>
     \<forall>k e. M' k = Some e \<longrightarrow> gi_name e = k"
proof (induction games arbitrary: ks M)
  case Nil
  then show ?case by simp
next
  case (Cons g gs)
  show ?case
  proof (cases "game_entry g")
    case (Inl e)
    with Cons.prems show ?thesis by simp
  next
    case (Inr i)
    with Cons.prems have
      "scan_games_list gs (ks @ [gi_name i]) (M(gi_name i \<mapsto> i)) = Inr (ks', M')"
      by simp
    moreover have "\<forall>k e. (M(gi_name i \<mapsto> i)) k = Some e \<longrightarrow> gi_name e = k"
      using Cons.prems(2) by auto
    ultimately show ?thesis by (rule Cons.IH)
  qed
qed

lemma show_new_found:
  "set ks \<subseteq> dom M \<Longrightarrow>
     show_new env i M ks = interact (interaction_reply env) i (map FollowupEmbed (peek_embeds M ks))"
  by (induction ks arbitrary: i)
     (auto simp: peek_embeds_def List.map_filter_simps split: option.splits)

lemma peek_embeds_titles:
  "\<forall>k e. M k = Some e \<longrightarrow> gi_name e = k \<Longrightarrow> set ks \<subseteq> dom M \<Longrightarrow>
     map em_title (peek_embeds M ks) = map game_title ks"
  by (induction ks)
     (auto simp: peek_embeds_def List.map_filter_simps make_game_embed_def game_title_def)

text \<open>
  C10. When \<^verbatim>\<open>newgame\<close> finds unseen games (the keys of the snapshot, in snapshot order and
  with repetitions, that are not in \<open>seen_new\<close>), what it does on the interaction is to
  defer, to show an embed for each of the first ten of them, in that order and not sorted,
  the title of each its key, and, when there are more than ten, to send one closing
  message that tells their total number; the others are not shown. These calls are made
  one after the other until one raises, which ends the handler with that exception; when
  they return, all of them are made and the handler returns.
\<close>

theorem newgame_shows_first_ten:
  assumes f: "fetch_games env s = (games, s1)" and ne: "games \<noteq> []"
    and sc: "scan_games_list games [] Map.empty = Inr (keys, M)"
    and nn: "filter (\<lambda>k. k \<notin> seen_new s) keys \<noteq> []"
  shows "keys = snapshot_keys games \<and>
         (fst (newgame env s), fst (snd (newgame env s)))
           = interact (interaction_reply env) 0
               (Defer # map FollowupEmbed (peek_embeds M (take 10 (filter (\<lambda>k. k \<notin> seen_new s) keys)))
                @ (if 10 < length (filter (\<lambda>k. k \<notin> seen_new s) keys)
                   then [FollowupText (count_text (length (filter (\<lambda>k. k \<notin> seen_new s) keys))) True]
                   else [])) \<and>
         ((\<forall>i. interaction_reply env i = Returns) \<longrightarrow>
            fst (newgame env s) = None \<and>
            fst (snd (newgame env s))
              = Defer # map FollowupEmbed (peek_embeds M (take 10 (filter (\<lambda>k. k \<notin> seen_new s) keys)))
                @ (if 10 < length (filter (\<lambda>k. k \<notin> seen_new s) keys)
                   then [FollowupText (count_text (length (filter (\<lambda>k. k \<notin> seen_new s) keys))) True]
                   else [])) \<and>
         map em_title (peek_embeds M (take 10 (filter (\<lambda>k. k \<notin> seen_new s) keys)))
           = map game_title (take 10 (filter (\<lambda>k. k \<notin> seen_new s) keys))"
proof -
  let ?new = "filter (\<lambda>k. k \<notin> seen_new s) keys"
  let ?shown = "map FollowupEmbed (peek_embeds M (take 10 ?new))"
  let ?closing = "if 10 < length ?new then [FollowupText (count_text (length ?new)) True] else []"
  let ?r = "interaction_reply env"
  have k: "keys = snapshot_keys games" and d: "dom M = set keys"
    using scan_games_list_keys[OF sc] by simp_all
  have nm: "\<forall>k e. M k = Some e \<longrightarrow> gi_name e = k"
    by (rule scan_games_list_names[OF sc]) simp
  have sub: "set (take 10 ?new) \<subseteq> dom M"
    using d by (auto dest: in_set_takeD)
  have sn: "seen_new s1 = seen_new s" using fetch_games_frame[OF f] by simp
  have sh: "show_new env (Suc 0) M (take 10 ?new) = interact ?r (Suc 0) ?shown"
    by (rule show_new_found[OF sub])
  have nn1: "filter (\<lambda>k. k \<notin> seen_new s1) keys \<noteq> []" using nn by (simp add: sn)
  have eq: "(fst (newgame env s), fst (snd (newgame env s)))
              = interact ?r 0 (Defer # ?shown @ ?closing)"
  proof (cases "api_error (?r 0)")
    case (Some x)
    then show ?thesis by (simp add: newgame_def)
  next
    case None
    then have r0: "?r 0 = Returns" by simp
    obtain e rs where sr: "interact ?r (Suc 0) ?shown = (e, rs)"
      by (cases "interact ?r (Suc 0) ?shown")
    have rhs: "interact ?r 0 (Defer # ?shown @ ?closing)
                 = (case e of
                      Some x \<Rightarrow> (Some x, Defer # rs)
                    | None \<Rightarrow>
                        (case interact ?r (Suc (length ?shown)) ?closing of
                           (q, ts) \<Rightarrow> (q, Defer # rs @ ts)))"
      by (rule interact_Cons_append[OF r0 sr])
    show ?thesis
    proof (cases e)
      case (Some x)
      have "newgame env s = (Some x, Defer # rs, s1)"
        unfolding newgame_def f Let_def using r0 ne sc nn1
        by (simp add: sn sh sr Some del: take_all)
      then show ?thesis unfolding rhs by (simp add: Some)
    next
      case None
      with sr have rs: "rs = ?shown" by (simp add: interact_length)
      show ?thesis
      proof (cases "10 < length ?new")
        case True
        have "newgame env s
                = (case interact ?r (Suc (length rs)) [FollowupText (count_text (length ?new)) True] of
                     (q, ts) \<Rightarrow> (q, Defer # rs @ ts, s1))"
          unfolding newgame_def f Let_def using r0 ne sc nn1 True
          by (simp add: sn sh sr None count_text_def del: interact.simps take_all)
        then show ?thesis
          unfolding rhs using True
          by (simp add: None rs case_prod_beta del: interact.simps take_all)
      next
        case False
        have "newgame env s = (None, Defer # rs, s1)"
          unfolding newgame_def f Let_def using r0 ne sc nn1 False
          by (simp add: sn sh sr None del: take_all)
        then show ?thesis
          unfolding rhs using False by (simp add: None rs del: take_all)
      qed
    qed
  qed
  have ret: "fst (newgame env s) = None \<and> fst (snd (newgame env s)) = Defer # ?shown @ ?closing"
    if "\<forall>i. interaction_reply env i = Returns"
  proof -
    from eq interact_returns[OF that, of 0 "Defer # ?shown @ ?closing"]
    have "(fst (newgame env s), fst (snd (newgame env s))) = (None, Defer # ?shown @ ?closing)"
      by (simp only:)
    then show ?thesis by simp
  qed
  show ?thesis
  proof (intro conjI impI)
    show "keys = snapshot_keys games" by (rule k)
    show "(fst (newgame env s), fst (snd (newgame env s)))
            = interact ?r 0 (Defer # ?shown @ ?closing)" by (rule eq)
    show "fst (newgame env s) = None" if "\<forall>i. interaction_reply env i = Returns"
      using ret[OF that] by blast
    show "fst (snd (newgame env s)) = Defer # ?shown @ ?closing"
      if "\<forall>i. interaction_reply env i = Returns"
      using ret[OF that] by blast
    show "map em_title (peek_embeds M (take 10 ?new)) = map game_title (take 10 ?new)"
      by (rule peek_embeds_titles[OF nm sub])
  qed
qed

lemma scan_games_list_total:
  "list_all (\<lambda>g. case game_entry g of Inl e \<Rightarrow> False | Inr i \<Rightarrow> True) games \<Longrightarrow>
     \<exists>M'. scan_games_list games ks M = Inr (ks @ snapshot_keys games, M')"
proof (induction games arbitrary: ks M)
  case Nil
  show ?case by (simp add: snapshot_keys_def)
next
  case (Cons g gs)
  then obtain i where i: "game_entry g = Inr i" and r: "list_all (\<lambda>g. case game_entry g of Inl e \<Rightarrow> False | Inr i \<Rightarrow> True) gs"
    by (cases "game_entry g") auto
  from Cons.IH[OF r, of "ks @ [gi_name i]" "M(gi_name i \<mapsto> i)"] obtain M' where
    "scan_games_list gs (ks @ [gi_name i]) (M(gi_name i \<mapsto> i))
       = Inr ((ks @ [gi_name i]) @ snapshot_keys gs, M')"
    by blast
  then show ?case
    by (auto simp: i snapshot_keys_Cons[OF i])
qed

theorem newgame_witness:
  "\<exists>es. fst (snd (newgame env12 monitor0))
           = Defer # map FollowupEmbed es @ [FollowupText (count_text 12) True] \<and>
        map em_title es
           = map game_title [''Game 12'', ''Game 11'', ''Game 10'', ''Game 9'', ''Game 8'',
                             ''Game 7'', ''Game 6'', ''Game 5'', ''Game 4'', ''Game 3'']"
proof -
  have f: "fetch_games env12 monitor0 = (games12, monitor0)" by code_simp
  have ne: "games12 \<noteq> []" by code_simp
  have "list_all (\<lambda>g. case game_entry g of Inl e \<Rightarrow> False | Inr i \<Rightarrow> True) games12"
    by code_simp
  from scan_games_list_total[OF this, of "[]" Map.empty]
  obtain M where sc: "scan_games_list games12 [] Map.empty = Inr (snapshot_keys games12, M)"
    by auto
  have new: "filter (\<lambda>k. k \<notin> seen_new monitor0) (snapshot_keys games12)
               = [''Game 12'', ''Game 11'', ''Game 10'', ''Game 9'', ''Game 8'', ''Game 7'',
                  ''Game 6'', ''Game 5'', ''Game 4'', ''Game 3'', ''Game 2'', ''Game 1'']"
    by code_simp
  then have nn: "filter (\<lambda>k. k \<notin> seen_new monitor0) (snapshot_keys games12) \<noteq> []"
    by simp
  have len: "length (filter (\<lambda>k. k \<notin> seen_new monitor0) (snapshot_keys games12)) = 12"
    by (simp add: new)
  have r: "\<forall>i. interaction_reply env12 i = Returns"
    by (simp add: env12_def env_ok_def)
  note t = newgame_shows_first_ten[OF f ne sc nn]
  from t r have a: "fst (snd (newgame env12 monitor0))
           = Defer # map FollowupEmbed
               (peek_embeds M (take 10 (filter (\<lambda>k. k \<notin> seen_new monitor0) (snapshot_keys games12))))
             @ (if 10 < length (filter (\<lambda>k. k \<notin> seen_new monitor0) (snapshot_keys games12))
                then [FollowupText (count_text (length (filter (\<lambda>k. k \<notin> seen_new monitor0) (snapshot_keys games12)))) True]
                else [])"
    by (elim conjE) (drule (1) mp, elim conjE, assumption)
  from t have b: "map em_title
                    (peek_embeds M (take 10 (filter (\<lambda>k. k \<notin> seen_new monitor0) (snapshot_keys games12))))
           = map game_title (take 10 (filter (\<lambda>k. k \<notin> seen_new monitor0) (snapshot_keys games12)))"
    by blast
  show ?thesis
    by (rule exI[of _ "peek_embeds M (take 10 (filter (\<lambda>k. k \<notin> seen_new monitor0) (snapshot_keys games12)))"])
       (simp add: a b len, simp add: new)
qed

lemma countdown_sent: "st_sent (snd (countdown env c e r s)) = st_sent s"
  by (induction r arbitrary: s) (simp_all add: st_print_def split: api_reply.splits)

lemma send_visual_status_sent:
  assumes "channel_known env c" and "send_does env c = Returns"
  shows "st_sent (snd (send_visual_status env c s))
           = st_sent s @ [(c, status_embed (fetch_status (page_first env c)))]"
proof -
  let ?e = "status_embed (fetch_status (page_first env c))"
  let ?s1 = "s\<lparr>st_sent := st_sent s @ [(c, ?e)]\<rparr>"
  obtain w s2 where cd: "countdown env c ?e CHECK_INTERVAL ?s1 = (w, s2)"
    by (cases "countdown env c ?e CHECK_INTERVAL ?s1")
  then have "st_sent s2 = st_sent ?s1"
    using countdown_sent[of env c ?e CHECK_INTERVAL ?s1] by simp
  then show ?thesis
    using assms cd
    by (cases w; cases "edit_does env c 0")
       (simp_all add: send_visual_status_def Let_def status_embed_def)
qed

lemma status_loop_single:
  "st_config s = [(g, c)] \<Longrightarrow> snd (status_loop env s) = snd (send_visual_status env c s)"
  by (simp add: status_loop_def split: prod.splits option.splits)

lemma safe_send_failure:
  assumes "c \<noteq> 0"
    and "\<not> (get_channel env c \<or> fetch_channel env c) \<or> send_reply env c e \<noteq> SendOk"
  shows "delivered (safe_send env (Some c) e s) = delivered s"
    and "\<exists>line. printed (safe_send env (Some c) e s) = printed s @ [line]"
  using assms
  by (auto simp: safe_send_def print_def Let_def split: send_reply.splits)

lemma process_games_raises:
  assumes f: "fetch_games env s = (games, s1)" and ne: "games \<noteq> []"
    and sc: "scan_games games {} Map.empty = Inl e"
  shows "process_games_new_updated env s = (Some e, s1)"
  using assms by (simp add: process_games_new_updated_def)

text \<open>
  C5, as stated, fails for the status feed. \<^verbatim>\<open>fetch_status\<close> turns a failed fetch into the
  text it returns, and \<^verbatim>\<open>send_visual_status\<close> posts that text as the description of its
  embed: with one configured channel and a page that cannot be fetched, the automatic
  cycle sends the failure text to the channel.
\<close>

theorem status_reports_fetch_failure_in_channel:
  "st_sent (snd (status_loop status_env_timeout status0))
     = [(10, status_embed (ST_DOWN @ '' Error fetching status: Read timed out.''))]"
proof -
  have a: "channel_known status_env_timeout 10" by code_simp
  have b: "send_does status_env_timeout 10 = Returns" by code_simp
  have c: "st_config status0 = [(''1'', 10)]" by code_simp
  have d: "fetch_status (page_first status_env_timeout 10)
             = ST_DOWN @ '' Error fetching status: Read timed out.''" by code_simp
  have e: "st_sent status0 = []" by code_simp
  show ?thesis
    by (simp only: status_loop_single[OF c] send_visual_status_sent[OF a b] d e append_Nil)
qed

text \<open>
  C5, amended. In an automatic cycle of the game monitor a failure reaches no channel:
  when the games fetch fails, the games pipeline hands nothing to \<^verbatim>\<open>safe_send\<close>, delivers
  nothing and prints one line; when an item of the snapshot raises, the cycle changes
  nothing but the printed lines, the last of which is the text of the exception; when a
  delivery fails (the channel is not found, or \<^verbatim>\<open>channel.send\<close> raises), nothing is delivered
  and one line is printed. In a cycle of the status monitor a failed fetch does reach the
  channel: the embed posted has the text of the failure as its description.
\<close>

theorem failures_reach_chat_only_in_status:
  "(fetch_games env s = ([], s1) \<longrightarrow>
      cycle_posts s (snd (process_games_new_updated env s)) = [] \<and>
      delivered (snd (process_games_new_updated env s)) = delivered s \<and>
      ((\<forall>data. games_reply env \<noteq> GetStatus 200 (BodyList data)) \<longrightarrow>
         (\<exists>line. printed (snd (process_games_new_updated env s)) = printed s @ [line]))) \<and>
   (fetch_games env s = (games, s1) \<and> games \<noteq> [] \<and> scan_games games {} Map.empty = Inl e \<longrightarrow>
      monitor_loop env s
        = (None, s\<lparr>printed := printed s1 @ [''[ERROR] Monitor loop exception: '' @ error_text e]\<rparr>)) \<and>
   (c \<noteq> 0 \<and> (\<not> (get_channel env c \<or> fetch_channel env c) \<or> send_reply env c em \<noteq> SendOk) \<longrightarrow>
      delivered (safe_send env (Some c) em s) = delivered s \<and>
      (\<exists>line. printed (safe_send env (Some c) em s) = printed s @ [line])) \<and>
   (channel_known senv c \<and> send_does senv c = Returns \<and> page_first senv c = PageRaises m \<longrightarrow>
      st_sent (snd (send_visual_status senv c st))
        = st_sent st @ [(c, status_embed (ST_DOWN @ '' Error fetching status: '' @ m))])"
proof (intro conjI impI; (elim conjE)?)
  {
    assume f: "fetch_games env s = ([], s1)"
    have g: "process_games_new_updated env s = (None, s1)"
      using f by (simp add: process_games_new_updated_def)
    have fr: "notified s1 = notified s" "delivered s1 = delivered s"
      using fetch_games_frame[OF f] by simp_all
    show "\<exists>line. printed (snd (process_games_new_updated env s)) = printed s @ [line]"
      if "\<forall>data. games_reply env \<noteq> GetStatus 200 (BodyList data)"
      using f that
      by (auto simp: g fetch_games_def print_def split: games_reply.splits json_body.splits if_splits)
    show "cycle_posts s (snd (process_games_new_updated env s)) = []"
      by (simp add: g cycle_posts_def fr)
    show "delivered (snd (process_games_new_updated env s)) = delivered s"
      by (simp add: g fr)
  }
  {
    assume f: "fetch_games env s = (games, s1)" and ne: "games \<noteq> []"
      and sc: "scan_games games {} Map.empty = Inl e"
    have eq: "s1 = s\<lparr>printed := printed s1\<rparr>" by (rule fetch_games_printed_only[OF f])
    have "print (''[ERROR] Monitor loop exception: '' @ error_text e) s1
            = print (''[ERROR] Monitor loop exception: '' @ error_text e) (s\<lparr>printed := printed s1\<rparr>)"
      by (rule arg_cong[OF eq])
    then have "print (''[ERROR] Monitor loop exception: '' @ error_text e) s1
                 = s\<lparr>printed := printed s1 @ [''[ERROR] Monitor loop exception: '' @ error_text e]\<rparr>"
      by (simp add: print_def)
    then show "monitor_loop env s
        = (None, s\<lparr>printed := printed s1 @ [''[ERROR] Monitor loop exception: '' @ error_text e]\<rparr>)"
      by (simp add: monitor_loop_def check_for_new_games_def process_games_raises[OF f ne sc])
  }
  {
    assume c: "c \<noteq> 0"
      and x: "\<not> (get_channel env c \<or> fetch_channel env c) \<or> send_reply env c em \<noteq> SendOk"
    show "delivered (safe_send env (Some c) em s) = delivered s"
      by (rule safe_send_failure(1)[OF c x])
    show "\<exists>line. printed (safe_send env (Some c) em s) = printed s @ [line]"
      by (rule safe_send_failure(2)[OF c x])
  }
  {
    assume a: "channel_known senv c" and b: "send_does senv c = Returns"
      and p: "page_first senv c = PageRaises m"
    show "st_sent (snd (send_visual_status senv c st))
        = st_sent st @ [(c, status_embed (ST_DOWN @ '' Error fetching status: '' @ m))]"
      by (simp add: send_visual_status_sent[OF a b] p fetch_status_def)
  }
qed


theorem failures_witness:
  "monitor_loop env_bad_item monitor0
     = (None, monitor0\<lparr>printed := [''[ERROR] Monitor loop exception: ''
                                       @ error_text (no_attribute (JInt 5) ''get'')]\<rparr>) \<and>
   st_sent (snd (send_visual_status status_env_timeout 10 status0))
     = [(10, status_embed (ST_DOWN @ '' Error fetching status: Read timed out.''))]"
proof -
  have f: "fetch_games env_bad_item monitor0 = ([NonObj (JInt 5)], monitor0)" by code_simp
  have ne: "[NonObj (JInt 5)] \<noteq> []" by simp
  have sc: "scan_games [NonObj (JInt 5)] {} Map.empty = Inl (no_attribute (JInt 5) ''get'')"
    by (simp add: game_entry_def)
  have a: "channel_known status_env_timeout 10" by code_simp
  have b: "send_does status_env_timeout 10 = Returns" by code_simp
  have p: "page_first status_env_timeout 10 = PageRaises ''Read timed out.''" by code_simp
  have pr: "printed monitor0 = []" and ss: "st_sent status0 = []" by code_simp+
  note t = failures_reach_chat_only_in_status
             [of env_bad_item monitor0 monitor0 "[NonObj (JInt 5)]" "no_attribute (JInt 5) ''get''"
                 10 _ status_env_timeout "''Read timed out.''" status0]
  have 1: "monitor_loop env_bad_item monitor0
     = (None, monitor0\<lparr>printed := printed monitor0 @ [''[ERROR] Monitor loop exception: ''
                                       @ error_text (no_attribute (JInt 5) ''get'')]\<rparr>)"
    by (rule t[THEN conjunct2, THEN conjunct1, rule_format]) (intro conjI f ne sc)
  have 2: "st_sent (snd (send_visual_status status_env_timeout 10 status0))
     = st_sent status0 @ [(10, status_embed (ST_DOWN @ '' Error fetching status: '' @ ''Read timed out.''))]"
    by (rule t[THEN conjunct2, THEN conjunct2, THEN conjunct2, rule_format]) (intro conjI a b p)
  show ?thesis
    using 1 2 by (simp add: pr ss)
qed

end
